theory Spec2Isabelle
  imports Main "HOL-Library.Word"
begin

unbundle bit_operations_syntax

section \<open>OSPFS: the on-disk data engine of ospfsmod.c\<close>

text \<open>
  The module keeps the whole file system in one byte array, \<open>ospfs_data\<close>, and reaches
  every structure through pointers into it. The embedding keeps the array as a byte
  memory (so that an indirect block is the same bytes as a data block, read as 32-bit
  little-endian words, the i386 layout the module is written for), and keeps the two
  structures whose layout is declared in the header \<open>ospfs.h\<close> (not among the sources) as
  typed records: the superblock fields the code reads, and the inode table.
\<close>

type_synonym u8 = "8 word"
type_synonym u32 = "32 word"
type_synonym loff_t = "64 word"

subsection \<open>Constants of ospfs.h\<close>

text \<open>
  The header is not among the sources. The constants the spec leaves unbound are
  parameters of the model, collected in \<open>ospfs_hdr\<close>. \<open>NDIRECT\<close> is the length of the
  array of direct pointers inside one inode record; it is a 16-bit quantity here, which
  keeps \<open>OSPFS_MAXFILEBLKS * OSPFS_BLKSIZE\<close> below \<open>2 ^ 32\<close> as it is for every header
  the module can be compiled with.
\<close>

record ospfs_hdr =
  NDIRECT :: "16 word"
  MAXNAMELEN :: nat
  MAXSYMLINKLEN :: nat
  DIRENTRY_PAD :: nat

text \<open>Modelled from the spec: \<open>OSPFS_BLKSIZE\<close> of ospfs.h; "fixed-size array of
  1024-byte blocks".\<close>
definition OSPFS_BLKSIZE :: u32 where
  "OSPFS_BLKSIZE = 1024"

text \<open>Modelled from the spec: \<open>OSPFS_NINDIRECT\<close> of ospfs.h; "NI = BLKSIZE / 4".\<close>
definition OSPFS_NINDIRECT :: u32 where
  "OSPFS_NINDIRECT = OSPFS_BLKSIZE div 4"

definition OSPFS_NDIRECT :: "ospfs_hdr \<Rightarrow> u32" where
  "OSPFS_NDIRECT h = ucast (NDIRECT h)"

text \<open>Modelled from the spec: \<open>OSPFS_MAXFILEBLKS\<close> of ospfs.h; "a file's maximum block
  count is ND + NI + NI*NI".\<close>
definition OSPFS_MAXFILEBLKS :: "ospfs_hdr \<Rightarrow> u32" where
  "OSPFS_MAXFILEBLKS h = OSPFS_NDIRECT h + OSPFS_NINDIRECT + OSPFS_NINDIRECT * OSPFS_NINDIRECT"

text \<open>Modelled from the spec: \<open>OSPFS_FREEMAP_BLK\<close> of ospfs.h; "blocks 2 ...
  (first-inode-block - 1): free bitmap".\<close>
definition OSPFS_FREEMAP_BLK :: u32 where
  "OSPFS_FREEMAP_BLK = 2"

text \<open>Modelled from the spec: \<open>OSPFS_DIRENTRY_SIZE\<close> of ospfs.h; "DIRENTSZ bytes = 4-byte
  inode number + (MAXNAMELEN+1)-byte null-terminated name + padding".\<close>
definition OSPFS_DIRENTRY_SIZE :: "ospfs_hdr \<Rightarrow> nat" where
  "OSPFS_DIRENTRY_SIZE h = 4 + (MAXNAMELEN h + 1) + DIRENTRY_PAD h"

text \<open>Modelled from the spec: the \<open>ftype\<close> values of ospfs.h, "one of {regular, directory,
  symlink}"; the spec names the three kinds and not their numbers, and \<open>memset\<close> followed
  by \<open>oi_ftype = OSPFS_FTYPE_REG\<close> in \<open>ospfs_create\<close> is all the code relies on.\<close>
definition OSPFS_FTYPE_REG :: u32 where "OSPFS_FTYPE_REG = 0"
definition OSPFS_FTYPE_DIR :: u32 where "OSPFS_FTYPE_DIR = 1"
definition OSPFS_FTYPE_SYMLINK :: u32 where "OSPFS_FTYPE_SYMLINK = 2"

text \<open>The error numbers and the open flag are Linux's (asm/errno.h, asm/fcntl.h on i386).\<close>
definition EIO :: int where "EIO = 5"
definition ENOMEM :: int where "ENOMEM = 12"
definition EFAULT :: int where "EFAULT = 14"
definition EEXIST :: int where "EEXIST = 17"
definition ENOSPC :: int where "ENOSPC = 28"
definition ENAMETOOLONG :: int where "ENAMETOOLONG = 36"
definition O_APPEND :: u32 where "O_APPEND = 0x400"

subsection \<open>The disk image\<close>

record ospfs_inode =
  oi_size :: u32
  oi_ftype :: u32
  oi_nlink :: u32
  oi_mode :: u32
  oi_direct :: "nat \<Rightarrow> u32"
  oi_indirect :: u32
  oi_indirect2 :: u32
  oi_symlink :: string

text \<open>
  \<open>oi_direct\<close> is the array \<open>oi_direct[OSPFS_NDIRECT]\<close>; the code guards every index
  into it except in \<open>remove_block\<close>, where an index beyond the array is undefined
  behaviour in C and a read of the total function here. \<open>oi_symlink\<close> is the array
  \<open>oi_symlink[OSPFS_MAXSYMLINKLEN + 1]\<close> of the symlink view of the record
  (\<open>ospfs_symlink_inode_t\<close>), a C string ended by the byte 0.
\<close>

record ospfs_state =
  os_firstinob :: u32
  os_ninodes :: u32
  inodes :: "nat \<Rightarrow> ospfs_inode"
  ospfs_data :: "nat \<Rightarrow> u8"

text \<open>A 32-bit word in memory, least significant byte first.\<close>

definition ld32 :: "(nat \<Rightarrow> u8) \<Rightarrow> nat \<Rightarrow> u32" where
  "ld32 m a = ucast (m a) OR push_bit 8 (ucast (m (a + 1)))
                OR push_bit 16 (ucast (m (a + 2))) OR push_bit 24 (ucast (m (a + 3)))"

definition st32 :: "(nat \<Rightarrow> u8) \<Rightarrow> nat \<Rightarrow> u32 \<Rightarrow> (nat \<Rightarrow> u8)" where
  "st32 m a v = m(a := ucast v, a + 1 := ucast (drop_bit 8 v),
                  a + 2 := ucast (drop_bit 16 v), a + 3 := ucast (drop_bit 24 v))"

text \<open>\<open>memset(p, 0, n)\<close> and a copy of \<open>bs\<close> to \<open>p\<close>.\<close>

definition memset0 :: "(nat \<Rightarrow> u8) \<Rightarrow> nat \<Rightarrow> nat \<Rightarrow> (nat \<Rightarrow> u8)" where
  "memset0 m p n = (\<lambda>a. if p \<le> a \<and> a < p + n then 0 else m a)"

definition memcpy_to :: "(nat \<Rightarrow> u8) \<Rightarrow> nat \<Rightarrow> u8 list \<Rightarrow> (nat \<Rightarrow> u8)" where
  "memcpy_to m p bs = (\<lambda>a. if p \<le> a \<and> a < p + length bs then bs ! (a - p) else m a)"

definition mem_bytes :: "(nat \<Rightarrow> u8) \<Rightarrow> nat \<Rightarrow> nat \<Rightarrow> u8 list" where
  "mem_bytes m p n = map m [p ..< p + n]"

text \<open>\<open>p[i]\<close> for \<open>uint32_t *p\<close> at byte address \<open>p\<close> of the image and an \<open>int\<close> index.\<close>

definition slot :: "nat \<Rightarrow> int \<Rightarrow> nat" where
  "slot p i = nat (int p + 4 * i)"

subsection \<open>Bitvector operations\<close>

definition bitvector_set :: "(nat \<Rightarrow> u8) \<Rightarrow> nat \<Rightarrow> int \<Rightarrow> (nat \<Rightarrow> u8)" where
  "bitvector_set m vector i =
     st32 m (slot vector (i div 32))
       (ld32 m (slot vector (i div 32)) OR push_bit (nat (i mod 32)) 1)"

definition bitvector_clear :: "(nat \<Rightarrow> u8) \<Rightarrow> nat \<Rightarrow> int \<Rightarrow> (nat \<Rightarrow> u8)" where
  "bitvector_clear m vector i =
     st32 m (slot vector (i div 32))
       (ld32 m (slot vector (i div 32)) AND NOT (push_bit (nat (i mod 32)) 1))"

definition bitvector_test :: "(nat \<Rightarrow> u8) \<Rightarrow> nat \<Rightarrow> int \<Rightarrow> bool" where
  "bitvector_test m vector i =
     (ld32 m (slot vector (i div 32)) AND push_bit (nat (i mod 32)) 1 \<noteq> 0)"

subsection \<open>Helper functions\<close>

definition ospfs_size2nblocks :: "u32 \<Rightarrow> u32" where
  "ospfs_size2nblocks sz = (sz + OSPFS_BLKSIZE - 1) div OSPFS_BLKSIZE"

text \<open>\<open>ospfs_block(blockno)\<close>: the byte offset of the block in \<open>ospfs_data\<close>; the product
  is a \<open>uint32_t\<close> product.\<close>
definition ospfs_block :: "u32 \<Rightarrow> nat" where
  "ospfs_block blockno = unat (blockno * OSPFS_BLKSIZE)"

text \<open>\<open>ospfs_inode(ino)\<close>: a pointer into the inode table, here the index, or NULL.\<close>
definition ospfs_inode :: "ospfs_state \<Rightarrow> u32 \<Rightarrow> nat option" where
  "ospfs_inode s ino = (if ino \<ge> os_ninodes s then None else Some (unat ino))"

definition ospfs_inode_blockno :: "ospfs_hdr \<Rightarrow> ospfs_state \<Rightarrow> nat \<Rightarrow> u32 \<Rightarrow> u32" where
  "ospfs_inode_blockno h s oi offset =
     (let blockno = offset div OSPFS_BLKSIZE; ino = inodes s oi; m = ospfs_data s in
      if offset \<ge> oi_size ino \<or> oi_ftype ino = OSPFS_FTYPE_SYMLINK then 0
      else if blockno \<ge> OSPFS_NDIRECT h + OSPFS_NINDIRECT then
        (let blockoff = blockno - (OSPFS_NDIRECT h + OSPFS_NINDIRECT);
             indirect2_block = ospfs_block (oi_indirect2 ino);
             indirect_block =
               ospfs_block (ld32 m (slot indirect2_block (uint (blockoff div OSPFS_NINDIRECT))))
         in ld32 m (slot indirect_block (uint (blockoff mod OSPFS_NINDIRECT))))
      else if blockno \<ge> OSPFS_NDIRECT h then
        ld32 m (slot (ospfs_block (oi_indirect ino)) (uint (blockno - OSPFS_NDIRECT h)))
      else oi_direct ino (unat blockno))"

text \<open>\<open>ospfs_inode_data(oi, offset)\<close>: the byte offset in \<open>ospfs_data\<close> of the file's
  \<open>offset\<close>th byte.\<close>
definition ospfs_inode_data :: "ospfs_hdr \<Rightarrow> ospfs_state \<Rightarrow> nat \<Rightarrow> u32 \<Rightarrow> nat" where
  "ospfs_inode_data h s oi offset =
     ospfs_block (ospfs_inode_blockno h s oi offset) + unat (offset mod OSPFS_BLKSIZE)"

subsection \<open>Free-block bitmap\<close>

function alloc_scan :: "(nat \<Rightarrow> u8) \<Rightarrow> nat \<Rightarrow> int \<Rightarrow> int \<Rightarrow> bool \<times> int" where
  "alloc_scan m vector bitno num_bits =
     (if bitno < num_bits then
        (if bitvector_test m vector bitno then (True, bitno)
         else alloc_scan m vector (bitno + 1) num_bits)
      else (False, bitno))"
  by pat_completeness auto
termination
  by (relation "measure (\<lambda>(m, vector, bitno, num_bits). nat (num_bits - bitno))") auto

declare alloc_scan.simps [simp del]

text \<open>\<open>alloc_scan\<close> is the \<open>while\<close> loop of \<open>allocate_block\<close>; it returns the loop's
  last \<open>free_block\<close> (as a truth value) and \<open>bit\<close>.\<close>

definition allocate_block :: "ospfs_state \<Rightarrow> u32 \<times> ospfs_state" where
  "allocate_block s =
     (let free_block_bitmap = ospfs_block OSPFS_FREEMAP_BLK;
          bitmap_blk_size = sint (os_firstinob s - OSPFS_FREEMAP_BLK);
          num_bits = bitmap_blk_size * sint OSPFS_BLKSIZE * 8;
          (found, bitno) = alloc_scan (ospfs_data s) free_block_bitmap 0 num_bits
      in if found then
           (word_of_int bitno,
            s\<lparr>ospfs_data := bitvector_clear (ospfs_data s) free_block_bitmap bitno\<rparr>)
         else (0, s))"

definition free_block :: "ospfs_state \<Rightarrow> u32 \<Rightarrow> ospfs_state" where
  "free_block s blockno =
     s\<lparr>ospfs_data := bitvector_set (ospfs_data s) (ospfs_block OSPFS_FREEMAP_BLK) (sint blockno)\<rparr>"

subsection \<open>Block-pointer index arithmetic\<close>

definition indir2_index :: "ospfs_hdr \<Rightarrow> u32 \<Rightarrow> int" where
  "indir2_index h b =
     (if b \<ge> OSPFS_NDIRECT h + OSPFS_NINDIRECT \<and> b < OSPFS_MAXFILEBLKS h then 0 else -1)"

definition indir_index :: "ospfs_hdr \<Rightarrow> u32 \<Rightarrow> int" where
  "indir_index h b =
     (if b \<ge> OSPFS_NDIRECT h \<and> b < OSPFS_NINDIRECT + OSPFS_NDIRECT h then 0
      else if b \<ge> OSPFS_NINDIRECT + OSPFS_NDIRECT h \<and> b < OSPFS_MAXFILEBLKS h then
        sint ((b - (OSPFS_NINDIRECT + OSPFS_NDIRECT h)) div OSPFS_NINDIRECT)
      else -1)"

definition direct_index :: "ospfs_hdr \<Rightarrow> u32 \<Rightarrow> int" where
  "direct_index h b =
     (if b \<ge> 0 \<and> b < OSPFS_NDIRECT h then sint b
      else if b \<ge> OSPFS_NDIRECT h \<and> b < OSPFS_NINDIRECT + OSPFS_NDIRECT h then
        sint (b - OSPFS_NDIRECT h)
      else if b \<ge> OSPFS_NINDIRECT + OSPFS_NDIRECT h \<and> b < OSPFS_MAXFILEBLKS h then
        sint ((b - (OSPFS_NINDIRECT + OSPFS_NDIRECT h))
                mod (OSPFS_NINDIRECT + OSPFS_NDIRECT h))
      else -1)"

subsection \<open>Growing and shrinking a file\<close>

text \<open>
  The functions below take the inode pointer \<open>oi\<close> as the index of the record in the
  inode table and return the C return value with the new state. Every \<open>return\<close> of an
  error inside the three cases of \<open>add_block\<close> and \<open>remove_block\<close> is a negative first
  component; the value 0 there stands for reaching the size update at the end of the
  function.
\<close>

definition inode_upd :: "ospfs_state \<Rightarrow> nat \<Rightarrow> (ospfs_inode \<Rightarrow> ospfs_inode) \<Rightarrow> ospfs_state" where
  "inode_upd s oi f = s\<lparr>inodes := (inodes s)(oi := f (inodes s oi))\<rparr>"

definition zero_block :: "ospfs_state \<Rightarrow> u32 \<Rightarrow> ospfs_state" where
  "zero_block s b = s\<lparr>ospfs_data := memset0 (ospfs_data s) (ospfs_block b) (unat OSPFS_BLKSIZE)\<rparr>"

definition put32 :: "ospfs_state \<Rightarrow> nat \<Rightarrow> u32 \<Rightarrow> ospfs_state" where
  "put32 s a v = s\<lparr>ospfs_data := st32 (ospfs_data s) a v\<rparr>"

definition get32 :: "ospfs_state \<Rightarrow> nat \<Rightarrow> u32" where
  "get32 s a = ld32 (ospfs_data s) a"

definition add_block_direct :: "ospfs_hdr \<Rightarrow> ospfs_state \<Rightarrow> nat \<Rightarrow> u32 \<Rightarrow> int \<times> ospfs_state" where
  "add_block_direct h s oi n =
     (let (a0, s1) = allocate_block s in
      if a0 = 0 then (- ENOSPC, s1)
      else
        (let s2 = zero_block s1 a0;
             s3 = inode_upd s2 oi (\<lambda>i. i\<lparr>oi_direct := (oi_direct i)(unat n := a0)\<rparr>)
         in (0, s3)))"

definition add_block_indirect :: "ospfs_hdr \<Rightarrow> ospfs_state \<Rightarrow> nat \<Rightarrow> u32 \<Rightarrow> int \<times> ospfs_state" where
  "add_block_indirect h s oi n =
     (if direct_index h n < 0 then (- EIO, s)
      else if oi_indirect (inodes s oi) \<noteq> 0 then
        (let (a0, s1) = allocate_block s in
         if a0 \<noteq> 0 then
           (let s2 = zero_block s1 a0;
                indir_block_contents = ospfs_block (oi_indirect (inodes s2 oi));
                s3 = put32 s2 (slot indir_block_contents (direct_index h n)) a0
            in (0, s3))
         else (- ENOSPC, s1))
      else
        (let (a0, s1) = allocate_block s in
         if a0 = 0 then (- ENOSPC, s1)
         else
           (let s2 = zero_block s1 a0;
                s3 = inode_upd s2 oi (\<lambda>i. i\<lparr>oi_indirect := a0\<rparr>);
                (a1, s4) = allocate_block s3
            in if a1 \<noteq> 0 then
                 (let s5 = zero_block s4 a1;
                      indir_block_contents = ospfs_block (oi_indirect (inodes s5 oi));
                      s6 = put32 s5 (slot indir_block_contents (direct_index h n)) a1
                  in (0, s6))
               else
                 (let s5 = free_block s4 a0;
                      s6 = inode_upd s5 oi (\<lambda>i. i\<lparr>oi_indirect := 0\<rparr>)
                  in (- ENOSPC, s6)))))"

definition add_block_indirect2 :: "ospfs_hdr \<Rightarrow> ospfs_state \<Rightarrow> nat \<Rightarrow> u32 \<Rightarrow> int \<times> ospfs_state" where
  "add_block_indirect2 h s oi n =
     (if indir_index h n < 0 \<or> direct_index h n < 0 then (- EIO, s)
      else if oi_indirect2 (inodes s oi) \<noteq> 0 then
        (let indir_block_contents = ospfs_block (oi_indirect2 (inodes s oi)) in
         if indir_index h n < 0 then (- EIO, s)
         else if get32 s (slot indir_block_contents (indir_index h n)) \<noteq> 0 then
           (let (a0, s1) = allocate_block s in
            if a0 \<noteq> 0 then
              (let s2 = zero_block s1 a0;
                   dir_block_contents =
                     ospfs_block (get32 s2 (slot indir_block_contents (indir_index h n)));
                   s3 = put32 s2 (slot dir_block_contents (direct_index h n)) a0
               in (0, s3))
            else (- ENOSPC, s1))
         else
           (let (a0, s1) = allocate_block s in
            if a0 = 0 then (- ENOSPC, s1)
            else
              (let s2 = put32 s1 (slot indir_block_contents (indir_index h n)) a0;
                   (a1, s3) = allocate_block s2
               in if a1 = 0 then
                    (let s4 = free_block s3 a0;
                         s5 = put32 s4 (slot indir_block_contents (indir_index h n)) 0
                     in (- ENOSPC, s5))
                  else
                    (let s4 = zero_block s3 a1;
                         dir_block_contents = ospfs_block a0;
                         s5 = put32 s4 (slot dir_block_contents (direct_index h n)) a1
                     in (0, s5)))))
      else
        (let (a0, s1) = allocate_block s in
         if a0 = 0 then (- ENOSPC, s1)
         else
           (let s2 = zero_block s1 a0;
                s3 = inode_upd s2 oi (\<lambda>i. i\<lparr>oi_indirect2 := a0\<rparr>);
                (a1, s4) = allocate_block s3
            in if a1 \<noteq> 0 then
                 (let s5 = zero_block s4 a1;
                      indir_block_contents = ospfs_block (oi_indirect2 (inodes s5 oi));
                      s6 = put32 s5 (slot indir_block_contents (indir_index h n)) a1;
                      (a2, s7) = allocate_block s6
                  in if a2 \<noteq> 0 then
                       (let s8 = zero_block s7 a2;
                            dir_block_contents = ospfs_block a1;
                            s9 = put32 s8 (slot dir_block_contents (direct_index h n)) a2
                        in (0, s9))
                     else
                       (let s8 = free_block s7 a0;
                            s9 = free_block s8 a1;
                            s10 = inode_upd s9 oi (\<lambda>i. i\<lparr>oi_indirect2 := 0\<rparr>)
                        in (- ENOSPC, s10)))
               else
                 (let s5 = free_block s4 a0;
                      s6 = inode_upd s5 oi (\<lambda>i. i\<lparr>oi_indirect2 := 0\<rparr>)
                  in (- ENOSPC, s6)))))"

text \<open>The size update at the end of \<open>add_block\<close>.\<close>

definition add_block_size :: "u32 \<Rightarrow> u32" where
  "add_block_size sz =
     (if sz mod OSPFS_BLKSIZE \<noteq> 0
      then sz + ((OSPFS_BLKSIZE - sz mod OSPFS_BLKSIZE) + OSPFS_BLKSIZE)
      else sz + OSPFS_BLKSIZE)"

definition add_block :: "ospfs_hdr \<Rightarrow> ospfs_state \<Rightarrow> nat \<Rightarrow> int \<times> ospfs_state" where
  "add_block h s oi =
     (let n = ospfs_size2nblocks (oi_size (inodes s oi));
          (r, s1) =
            (if n < OSPFS_NDIRECT h then add_block_direct h s oi n
             else if n < OSPFS_NDIRECT h + OSPFS_NINDIRECT then add_block_indirect h s oi n
             else if n < OSPFS_MAXFILEBLKS h then add_block_indirect2 h s oi n
             else (- EIO, s))
      in if r < 0 then (r, s1)
         else (0, inode_upd s1 oi (\<lambda>i. i\<lparr>oi_size := add_block_size (oi_size i)\<rparr>)))"

definition remove_block_direct :: "ospfs_hdr \<Rightarrow> ospfs_state \<Rightarrow> nat \<Rightarrow> u32 \<Rightarrow> int \<times> ospfs_state" where
  "remove_block_direct h s oi n =
     (let s1 = free_block s (oi_direct (inodes s oi) (unat (n - 1)));
          s2 = inode_upd s1 oi (\<lambda>i. i\<lparr>oi_direct := (oi_direct i)(unat (n - 1) := 0)\<rparr>)
      in (0, s2))"

definition remove_block_indirect :: "ospfs_hdr \<Rightarrow> ospfs_state \<Rightarrow> nat \<Rightarrow> u32 \<Rightarrow> int \<times> ospfs_state" where
  "remove_block_indirect h s oi n =
     (if direct_index h (n - 1) < 0 \<or> oi_indirect (inodes s oi) = 0 then (- EIO, s)
      else
        (let indir_block_contents = ospfs_block (oi_indirect (inodes s oi));
             s1 = free_block s (get32 s (slot indir_block_contents (direct_index h (n - 1))));
             s2 = put32 s1 (slot indir_block_contents (direct_index h (n - 1))) 0
         in if indir_index h (n - 2) < 0 then
              (let s3 = free_block s2 (oi_indirect (inodes s2 oi));
                   s4 = inode_upd s3 oi (\<lambda>i. i\<lparr>oi_indirect := 0\<rparr>)
               in (0, s4))
            else (0, s2)))"

definition remove_block_indirect2 :: "ospfs_hdr \<Rightarrow> ospfs_state \<Rightarrow> nat \<Rightarrow> u32 \<Rightarrow> int \<times> ospfs_state" where
  "remove_block_indirect2 h s oi n =
     (if indir_index h (n - 1) < 0 \<or> direct_index h (n - 1) < 0 then (- EIO, s)
      else if oi_indirect2 (inodes s oi) = 0 then (- EIO, s)
      else
        (let indir_block_contents = ospfs_block (oi_indirect2 (inodes s oi));
             dir_block_contents =
               ospfs_block (get32 s (slot indir_block_contents (indir_index h (n - 1))));
             s1 = free_block s (get32 s (slot dir_block_contents (direct_index h (n - 1))));
             s2 = put32 s1 (slot dir_block_contents (direct_index h (n - 1))) 0
         in if direct_index h (n - 1) = 0 then
              (let s3 = free_block s2 (get32 s2 (slot indir_block_contents (indir_index h (n - 1))));
                   s4 = put32 s3 (slot indir_block_contents (indir_index h (n - 1))) 0
               in if indir2_index h (n - 2) < 0 then
                    (let s5 = free_block s4 (oi_indirect2 (inodes s4 oi));
                         s6 = inode_upd s5 oi (\<lambda>i. i\<lparr>oi_indirect2 := 0\<rparr>)
                     in (0, s6))
                  else (0, s4))
            else (0, s2)))"

text \<open>The size update at the end of \<open>remove_block\<close>.\<close>

definition remove_block_size :: "u32 \<Rightarrow> u32" where
  "remove_block_size sz =
     (if sz mod OSPFS_BLKSIZE \<noteq> 0 then sz - sz mod OSPFS_BLKSIZE else sz - OSPFS_BLKSIZE)"

definition remove_block :: "ospfs_hdr \<Rightarrow> ospfs_state \<Rightarrow> nat \<Rightarrow> int \<times> ospfs_state" where
  "remove_block h s oi =
     (let n = ospfs_size2nblocks (oi_size (inodes s oi)) in
      if n \<le> 0 then (- EIO, s)
      else
        (let (r, s1) =
               (if indir_index h (n - 1) < 0 then remove_block_direct h s oi n
                else if indir2_index h (n - 1) < 0 then remove_block_indirect h s oi n
                else if indir_index h (n - 1) \<ge> 0 then remove_block_indirect2 h s oi n
                else (- EIO, s))
         in if r < 0 then (r, s1)
            else (0, inode_upd s1 oi (\<lambda>i. i\<lparr>oi_size := remove_block_size (oi_size i)\<rparr>))))"

subsection \<open>What one step does to the size\<close>

text \<open>
  The loops of \<open>change_size\<close> end because a successful \<open>add_block\<close> raises the block
  count by one and a successful \<open>remove_block\<close> lowers the size. Both facts are about
  32-bit arithmetic, wrap-around included.
\<close>

lemma inodes_allocate_block: "inodes (snd (allocate_block s)) = inodes s"
  by (simp add: allocate_block_def Let_def split: prod.splits)

lemma inodes_allocate_block': "allocate_block s = (a, s') \<Longrightarrow> inodes s' = inodes s"
  using inodes_allocate_block [of s] by simp

lemma inodes_simps [simp]:
  "inodes (zero_block s b) = inodes s"
  "inodes (put32 s a v) = inodes s"
  "inodes (free_block s b) = inodes s"
  by (simp_all add: zero_block_def put32_def free_block_def)

lemma oi_size_inode_upd [simp]:
  "oi_size (inodes (inode_upd s oi (\<lambda>i. i\<lparr>oi_direct := f i\<rparr>)) j) = oi_size (inodes s j)"
  "oi_size (inodes (inode_upd s oi (\<lambda>i. i\<lparr>oi_indirect := g i\<rparr>)) j) = oi_size (inodes s j)"
  "oi_size (inodes (inode_upd s oi (\<lambda>i. i\<lparr>oi_indirect2 := g i\<rparr>)) j) = oi_size (inodes s j)"
  by (simp_all add: inode_upd_def)

lemma add_block_direct_size:
  "add_block_direct h s oi n = (r, s') \<Longrightarrow> oi_size (inodes s' j) = oi_size (inodes s j)"
  by (auto simp add: add_block_direct_def Let_def split: prod.splits if_splits
      dest!: inodes_allocate_block')

lemma add_block_indirect_size:
  "add_block_indirect h s oi n = (r, s') \<Longrightarrow> oi_size (inodes s' j) = oi_size (inodes s j)"
  by (auto simp add: add_block_indirect_def Let_def split: prod.splits if_splits
      dest!: inodes_allocate_block')

lemma add_block_indirect2_size:
  "add_block_indirect2 h s oi n = (r, s') \<Longrightarrow> oi_size (inodes s' j) = oi_size (inodes s j)"
  by (auto simp add: add_block_indirect2_def Let_def split: prod.splits if_splits
      dest!: inodes_allocate_block')

lemma unat_MAXFILEBLKS: "unat (OSPFS_MAXFILEBLKS h) \<le> 131327"
proof -
  have "unat (NDIRECT h) < 65536" using unsigned_less [of "NDIRECT h", where 'a = nat] by simp
  then have "unat (ucast (NDIRECT h) :: u32) < 65536" by (simp add: unsigned_ucast_eq take_bit_nat_eq_self)
  then show ?thesis
    by (simp add: OSPFS_MAXFILEBLKS_def OSPFS_NDIRECT_def OSPFS_NINDIRECT_def OSPFS_BLKSIZE_def
        unat_word_ariths)
qed

lemma nblocks_unat:
  "unat (ospfs_size2nblocks sz) = ((unat sz + 1023) mod 4294967296) div 1024"
  by (simp add: ospfs_size2nblocks_def OSPFS_BLKSIZE_def unat_div unat_word_ariths add.commute [of 1023])

lemma unat_mod_1024: "unat (sz mod 1024 :: u32) = unat sz mod 1024"
  by (simp add: unat_mod)

lemma mod_1024_eq_0: "(sz mod 1024 = (0 :: u32)) = (unat sz mod 1024 = 0)"
  by (metis unat_mod_1024 unat_eq_0)

lemma unat_add_block_size:
  "unat (add_block_size sz) =
     (if unat sz mod 1024 \<noteq> 0 then (unat sz + (2048 - unat sz mod 1024)) mod 4294967296
      else (unat sz + 1024) mod 4294967296)"
proof -
  have le: "sz mod 1024 \<le> 2048" by (simp add: word_le_nat_alt unat_mod_1024)
  have "unat (2048 - sz mod 1024) = 2048 - unat sz mod 1024"
    using unat_sub [OF le] by (simp add: unat_mod_1024)
  then show ?thesis
    by (simp add: add_block_size_def OSPFS_BLKSIZE_def mod_1024_eq_0 unat_word_ariths)
qed

lemma unat_remove_block_size:
  "unat (remove_block_size sz) =
     (if unat sz mod 1024 \<noteq> 0 then unat sz - unat sz mod 1024
      else if 1024 \<le> unat sz then unat sz - 1024 else unat sz + 4294967296 - 1024)"
proof -
  have le: "sz mod 1024 \<le> sz" by (simp add: word_le_nat_alt unat_mod_1024)
  have a: "unat (sz - sz mod 1024) = unat sz - unat sz mod 1024"
    using unat_sub [OF le] by (simp add: unat_mod_1024)
  have b: "1024 \<le> unat sz \<Longrightarrow> unat (sz - 1024) = unat sz - 1024"
    using unat_sub [of 1024 sz] by (simp add: word_le_nat_alt)
  have c: "\<not> 1024 \<le> unat sz \<Longrightarrow> unat (sz - 1024) = unat sz + 4294967296 - 1024"
    using unat_sub_if_size [of sz 1024] by (simp add: word_size)
  show ?thesis
    by (simp add: remove_block_size_def OSPFS_BLKSIZE_def mod_1024_eq_0 a b c)
qed

lemma div_1024_step:
  fixes q r :: nat
  assumes "r < 1024"
  shows "(1024 * q + r) div 1024 = q"
  using assms by (intro div_nat_eqI) simp_all

lemma nblocks_add_block_size:
  assumes "ospfs_size2nblocks sz < OSPFS_MAXFILEBLKS h"
  shows "unat (ospfs_size2nblocks (add_block_size sz)) = unat (ospfs_size2nblocks sz) + 1"
proof -
  define x where "x = unat sz"
  define q where "q = x div 1024"
  define r where "r = x mod 1024"
  have x: "x = 1024 * q + r" and r: "r < 1024" by (simp_all add: q_def r_def)
  have lt: "x < 4294967296" using unsigned_less [of sz, where 'a = nat] by (simp add: x_def)
  have "unat (ospfs_size2nblocks sz) < 131327"
    using assms unat_MAXFILEBLKS [of h] by (simp add: word_less_nat_alt)
  then have n: "((x + 1023) mod 4294967296) div 1024 < 131327"
    by (simp add: nblocks_unat x_def)
  have goal: "((if r \<noteq> 0 then (x + (2048 - r)) mod 4294967296
      else (x + 1024) mod 4294967296) + 1023) mod 4294967296 div 1024
     = ((x + 1023) mod 4294967296) div 1024 + 1"
  proof (cases "x + 1023 < 4294967296")
    case True
    then have n': "(1024 * q + (r + 1023)) div 1024 < 131327" using n by (simp add: x add.assoc)
    show ?thesis
    proof (cases "r = 0")
      case r0: True
      have "(1024 * q + 1023) div 1024 = q" by (rule div_1024_step) simp
      then have q: "q < 131327" using n' r0 by simp
      have a: "(x + 1023) div 1024 = q" using r0 x div_1024_step [of 1023 q] by simp
      have b: "(x + 1024 + 1023) div 1024 = q + 1"
        using r0 x div_1024_step [of 1023 "q + 1"] by simp
      show ?thesis using r0 q x a b by simp
    next
      case r1: False
      have "1024 * q + (r + 1023) = 1024 * (q + 1) + (r - 1)" using r1 by simp
      then have a: "(1024 * q + (r + 1023)) div 1024 = q + 1"
        using div_1024_step [of "r - 1" "q + 1"] r by simp
      then have q: "q + 1 < 131327" using n' by simp
      have "x + (2048 - r) + 1023 = 1024 * (q + 2) + 1023" using x r by simp
      then have b: "(x + (2048 - r) + 1023) div 1024 = q + 2"
        using div_1024_step [of 1023 "q + 2"] by simp
      have c: "x + (2048 - r) < 4294967296 - 1023" using x r q by simp
      have a': "(x + 1023) div 1024 = q + 1" using a x by (simp add: add.assoc)
      show ?thesis using r1 True c a' b by simp
    qed
  next
    case False
    then have big: "4294966273 \<le> x" by simp
    have "x = 1024 * 4194303 + (x - 4294966272)" using big by simp
    moreover have "x - 4294966272 < 1024" using lt by simp
    ultimately have "x mod 1024 = x - 4294966272"
      by (metis mod_mult_self4 mod_less)
    then have xm: "r = x - 4294966272" by (simp add: r_def)
    then have nz: "r \<noteq> 0" using big by simp
    have e1: "x + (2048 - r) = 4294967296 + 1024" using xm big lt by simp
    have e2: "(x + 1023) mod 4294967296 = x + 1023 - 4294967296"
      using big lt by (simp add: mod_if)
    have "x - 4294966273 < 1024" using lt by simp
    then have e3: "(x - 4294966273) div 1024 = 0" by (rule div_less)
    show ?thesis
      using nz by (simp add: e1 e2 e3)
  qed
  show ?thesis
    using goal unfolding nblocks_unat unat_add_block_size r_def x_def by simp
qed

lemma remove_block_size_less:
  assumes "ospfs_size2nblocks sz \<noteq> 0"
  shows "unat (remove_block_size sz) < unat sz"
proof -
  define x where "x = unat sz"
  have "unat (ospfs_size2nblocks sz) \<noteq> 0" using assms by (simp add: unat_eq_0)
  then have n: "((x + 1023) mod 4294967296) div 1024 \<noteq> 0"
    by (simp add: nblocks_unat x_def)
  have x0: "x \<noteq> 0" using n by (cases "x = 0") simp_all
  have "1024 \<le> x" if "x mod 1024 = 0"
  proof (rule ccontr)
    assume "\<not> 1024 \<le> x"
    then have "x mod 1024 = x" by simp
    with that x0 show False by simp
  qed
  then show ?thesis
    unfolding unat_remove_block_size x_def [symmetric] using x0 by (auto simp: Suc_le_eq)
qed

lemma remove_block_direct_size:
  "remove_block_direct h s oi n = (r, s') \<Longrightarrow> oi_size (inodes s' j) = oi_size (inodes s j)"
  by (auto simp add: remove_block_direct_def Let_def)

lemma remove_block_indirect_size:
  "remove_block_indirect h s oi n = (r, s') \<Longrightarrow> oi_size (inodes s' j) = oi_size (inodes s j)"
  by (auto simp add: remove_block_indirect_def Let_def split: if_splits)

lemma remove_block_indirect2_size:
  "remove_block_indirect2 h s oi n = (r, s') \<Longrightarrow> oi_size (inodes s' j) = oi_size (inodes s j)"
  by (auto simp add: remove_block_indirect2_def Let_def split: if_splits)

lemma oi_size_inode_upd_size [simp]:
  "oi_size (inodes (inode_upd s oi (\<lambda>i. i\<lparr>oi_size := f (oi_size i)\<rparr>)) oi) = f (oi_size (inodes s oi))"
  by (simp add: inode_upd_def)

lemma unat_NDIRECT: "unat (OSPFS_NDIRECT h) < 65536"
proof -
  have "unat (NDIRECT h) < 65536" using unsigned_less [of "NDIRECT h", where 'a = nat] by simp
  then show ?thesis by (simp add: OSPFS_NDIRECT_def unsigned_ucast_eq take_bit_nat_eq_self)
qed

lemma unat_ND_NI: "unat (OSPFS_NDIRECT h + OSPFS_NINDIRECT) = unat (OSPFS_NDIRECT h) + 256"
  using unat_NDIRECT [of h]
  by (simp add: OSPFS_NINDIRECT_def OSPFS_BLKSIZE_def unat_word_ariths)

lemma unat_MAXFILEBLKS_eq: "unat (OSPFS_MAXFILEBLKS h) = unat (OSPFS_NDIRECT h) + 65792"
  using unat_NDIRECT [of h]
  by (simp add: OSPFS_MAXFILEBLKS_def OSPFS_NINDIRECT_def OSPFS_BLKSIZE_def unat_word_ariths)

lemma below_MAXFILEBLKS:
  "n < OSPFS_NDIRECT h \<Longrightarrow> n < OSPFS_MAXFILEBLKS h"
  "n < OSPFS_NDIRECT h + OSPFS_NINDIRECT \<Longrightarrow> n < OSPFS_MAXFILEBLKS h"
  by (simp_all add: word_less_nat_alt unat_ND_NI unat_MAXFILEBLKS_eq)

lemma add_block_ok_size:
  assumes "add_block h s oi = (r, s')" and "\<not> r < 0"
  shows "oi_size (inodes s' oi) = add_block_size (oi_size (inodes s oi))"
    and "ospfs_size2nblocks (oi_size (inodes s oi)) < OSPFS_MAXFILEBLKS h"
  using assms
  by (auto simp add: add_block_def Let_def EIO_def split: if_splits prod.splits
      intro: below_MAXFILEBLKS
      dest: add_block_direct_size [where j = oi] add_block_indirect_size [where j = oi]
        add_block_indirect2_size [where j = oi])

lemma add_block_ok_nblocks:
  assumes "add_block h s oi = (r, s')" and "\<not> r < 0"
  shows "unat (ospfs_size2nblocks (oi_size (inodes s' oi)))
           = unat (ospfs_size2nblocks (oi_size (inodes s oi))) + 1"
  using add_block_ok_size [OF assms] nblocks_add_block_size by simp

lemma remove_block_ok_size:
  assumes "remove_block h s oi = (r, s')" and "\<not> r < 0"
  shows "oi_size (inodes s' oi) = remove_block_size (oi_size (inodes s oi))"
    and "ospfs_size2nblocks (oi_size (inodes s oi)) \<noteq> 0"
  using assms
  by (auto simp add: remove_block_def Let_def EIO_def split: if_splits prod.splits
      dest: remove_block_direct_size [where j = oi] remove_block_indirect_size [where j = oi]
        remove_block_indirect2_size [where j = oi])

lemma remove_block_ok_less:
  assumes "remove_block h s oi = (r, s')" and "\<not> r < 0"
  shows "unat (oi_size (inodes s' oi)) < unat (oi_size (inodes s oi))"
  using remove_block_ok_size [OF assms] remove_block_size_less by simp

subsection \<open>change_size\<close>

text \<open>
  The three \<open>while\<close> loops of \<open>change_size\<close>. A first component other than 0 is the
  value of a \<open>return\<close> inside the loop; 0 is the loop's normal end. \<open>change_size_undo\<close>
  is the inner loop of the growth loop together with the \<open>return -ENOSPC\<close> after it.
\<close>

function change_size_undo :: "ospfs_hdr \<Rightarrow> ospfs_state \<Rightarrow> nat \<Rightarrow> u32 \<Rightarrow> int \<times> ospfs_state" where
  "change_size_undo h s oi old_size =
     (if oi_size (inodes s oi) > old_size then
        (let (r, s1) = remove_block h s oi in
         if r \<noteq> 0 then (r, s1) else change_size_undo h s1 oi old_size)
      else (- ENOSPC, s))"
  by pat_completeness auto
termination
  by (relation "measure (\<lambda>(h, s, oi, old_size). unat (oi_size (inodes s oi)))")
    (auto dest!: remove_block_ok_less [OF sym])

declare change_size_undo.simps [simp del]

function change_size_grow :: "ospfs_hdr \<Rightarrow> ospfs_state \<Rightarrow> nat \<Rightarrow> u32 \<Rightarrow> u32 \<Rightarrow> int \<times> ospfs_state" where
  "change_size_grow h s oi old_size new_size =
     (if ospfs_size2nblocks (oi_size (inodes s oi)) < ospfs_size2nblocks new_size then
        (let (r, s1) = add_block h s oi in
         if r = - ENOSPC then change_size_undo h s1 oi old_size
         else if r < 0 then (r, s1)
         else change_size_grow h s1 oi old_size new_size)
      else (0, s))"
  by pat_completeness auto
termination
  by (relation "measure (\<lambda>(h, s, oi, old_size, new_size).
        unat (ospfs_size2nblocks new_size) - unat (ospfs_size2nblocks (oi_size (inodes s oi))))")
    (auto simp add: word_less_nat_alt dest!: add_block_ok_nblocks [OF sym])

declare change_size_grow.simps [simp del]

function change_size_shrink :: "ospfs_hdr \<Rightarrow> ospfs_state \<Rightarrow> nat \<Rightarrow> u32 \<Rightarrow> int \<times> ospfs_state" where
  "change_size_shrink h s oi new_size =
     (if ospfs_size2nblocks (oi_size (inodes s oi)) > ospfs_size2nblocks new_size then
        (let (r, s1) = remove_block h s oi in
         if r < 0 then (r, s1) else change_size_shrink h s1 oi new_size)
      else (0, s))"
  by pat_completeness auto
termination
  by (relation "measure (\<lambda>(h, s, oi, new_size). unat (oi_size (inodes s oi)))")
    (auto dest!: remove_block_ok_less [OF sym])

declare change_size_shrink.simps [simp del]

definition change_size :: "ospfs_hdr \<Rightarrow> ospfs_state \<Rightarrow> nat \<Rightarrow> u32 \<Rightarrow> int \<times> ospfs_state" where
  "change_size h s oi new_size =
     (let old_size = oi_size (inodes s oi);
          (r, s1) = change_size_grow h s oi old_size new_size
      in if r \<noteq> 0 then (r, s1)
         else
           (let (r2, s2) = change_size_shrink h s1 oi new_size
            in if r2 \<noteq> 0 then (r2, s2)
               else (0, inode_upd s2 oi (\<lambda>i. i\<lparr>oi_size := new_size\<rparr>))))"

subsection \<open>Reading and writing\<close>

text \<open>
  The caller's buffer is user memory. For \<open>ospfs_read\<close> it is the number \<open>ucap\<close> of bytes
  that can be written from \<open>buffer\<close> on, and the bytes delivered so far; for \<open>ospfs_write\<close>
  it is the list \<open>ubuf\<close> of the bytes that can be read from \<open>buffer\<close> on.
  \<open>copy_to_user\<close> and \<open>copy_from_user\<close> (Linux, asm/uaccess.h) fail when the range
  leaves that memory, after copying what they can reach; \<open>copy_from_user\<close> then fills
  the rest of the destination with zero bytes. The counts (\<open>size_t\<close>) are unsigned
  32-bit numbers and the value returned (\<open>ssize_t\<close>) a signed one, as on the i386 the
  module is written for; the file position (\<open>loff_t\<close>) is a signed 64-bit number.
\<close>

definition blk_off_of :: "ospfs_hdr \<Rightarrow> ospfs_state \<Rightarrow> nat \<Rightarrow> loff_t \<Rightarrow> u32" where
  "blk_off_of h s oi pos =
     (let data = ospfs_block (ospfs_inode_blockno h s oi (ucast pos));
          current_data_offset = ospfs_inode_data h s oi (ucast pos)
      in of_nat current_data_offset - of_nat data)"

lemma blk_off_of_eq: "blk_off_of h s oi pos = ucast pos mod OSPFS_BLKSIZE"
  by (simp add: blk_off_of_def ospfs_inode_data_def Let_def)

definition chunk :: "u32 \<Rightarrow> u32 \<Rightarrow> u32 \<Rightarrow> u32" where
  "chunk count amount blk_off =
     (let blk_bytes = OSPFS_BLKSIZE - blk_off; bytes = count - amount
      in if bytes \<le> blk_bytes then bytes else blk_bytes)"

lemma chunk_bounds:
  assumes "amount < count" and "blk_off = x mod OSPFS_BLKSIZE"
  shows "0 < unat (chunk count amount blk_off)"
    and "unat amount + unat (chunk count amount blk_off) \<le> unat count"
    and "unat blk_off + unat (chunk count amount blk_off) \<le> 1024"
proof -
  have b: "unat blk_off < 1024"
    using assms(2) by (simp add: OSPFS_BLKSIZE_def unat_mod)
  then have bb: "unat (OSPFS_BLKSIZE - blk_off) = 1024 - unat blk_off"
    using unat_sub [of blk_off 1024] by (simp add: OSPFS_BLKSIZE_def word_le_nat_alt)
  have c: "unat (count - amount) = unat count - unat amount"
    using assms(1) unat_sub [of amount count] by (simp add: word_le_nat_alt word_less_nat_alt)
  have a: "unat amount < unat count" using assms(1) by (simp add: word_less_nat_alt)
  show "0 < unat (chunk count amount blk_off)"
    using a b by (auto simp add: chunk_def Let_def bb c word_le_nat_alt)
  show "unat amount + unat (chunk count amount blk_off) \<le> unat count"
    using a b by (auto simp add: chunk_def Let_def bb c word_le_nat_alt)
  show "unat blk_off + unat (chunk count amount blk_off) \<le> 1024"
    using a b by (auto simp add: chunk_def Let_def bb c word_le_nat_alt)
qed

lemma chunk_advance:
  assumes "amount < count" and "blk_off = x mod OSPFS_BLKSIZE"
  shows "unat (amount + chunk count amount blk_off) = unat amount + unat (chunk count amount blk_off)"
    and "unat count - unat (amount + chunk count amount blk_off) < unat count - unat amount"
proof -
  note cb = chunk_bounds [OF assms]
  have "unat count < 2 ^ 32" using unsigned_less [of count, where 'a = nat] by simp
  then show e: "unat (amount + chunk count amount blk_off) = unat amount + unat (chunk count amount blk_off)"
    using cb(2) by (simp add: unat_word_ariths)
  show "unat count - unat (amount + chunk count amount blk_off) < unat count - unat amount"
    using cb(1,2) by (simp add: e)
qed


lemma chunk_measure:
  assumes "amount < count"
  shows "unat count - (unat amount + unat (chunk count amount (blk_off_of h s oi pos)))
           < unat count - unat amount"
  using chunk_bounds(1,2) [OF assms blk_off_of_eq, of h s oi pos] by simp

function read_loop ::
  "ospfs_hdr \<Rightarrow> ospfs_state \<Rightarrow> nat \<Rightarrow> nat \<Rightarrow> u32 \<Rightarrow> u32 \<Rightarrow> loff_t \<Rightarrow> u8 list
     \<Rightarrow> int \<times> u32 \<times> loff_t \<times> u8 list" where
  "read_loop h s oi ucap count amount pos out =
     (if amount < count then
        (let blockno = ospfs_inode_blockno h s oi (ucast pos) in
         if blockno = 0 then (- EIO, amount, pos, out)
         else
           (let data = ospfs_block blockno;
                blk_off = blk_off_of h s oi pos;
                n = chunk count amount blk_off;
                bytes = mem_bytes (ospfs_data s) (data + unat blk_off) (unat n)
            in if ucap < unat amount + unat n
               then (- EFAULT, amount, pos, out @ take (ucap - unat amount) bytes)
               else read_loop h s oi ucap count (amount + n) (pos + ucast n) (out @ bytes)))
      else (0, amount, pos, out))"
  by pat_completeness auto
termination
  by (relation "measure (\<lambda>(h, s, oi, ucap, count, amount, pos, out). unat count - unat amount)")
    (auto simp add: chunk_advance(1) [OF _ blk_off_of_eq] chunk_measure)

declare read_loop.simps [simp del]

definition ospfs_read ::
  "ospfs_hdr \<Rightarrow> ospfs_state \<Rightarrow> nat \<Rightarrow> nat \<Rightarrow> u32 \<Rightarrow> loff_t \<Rightarrow> int \<times> loff_t \<times> u8 list" where
  "ospfs_read h s oi ucap count f_pos =
     (let count' = (if (ucast (oi_size (inodes s oi)) :: loff_t) <s f_pos + ucast count
                    then ucast (ucast (oi_size (inodes s oi)) - f_pos) else count);
          (retval, amount, pos, out) = read_loop h s oi ucap count' 0 f_pos []
      in ((if retval \<ge> 0 then sint amount else retval), pos, out))"

function write_loop ::
  "ospfs_hdr \<Rightarrow> ospfs_state \<Rightarrow> nat \<Rightarrow> u8 list \<Rightarrow> u32 \<Rightarrow> u32 \<Rightarrow> loff_t
     \<Rightarrow> int \<times> u32 \<times> loff_t \<times> ospfs_state" where
  "write_loop h s oi ubuf count amount pos =
     (if amount < count then
        (let blockno = ospfs_inode_blockno h s oi (ucast pos) in
         if blockno = 0 then (- EIO, amount, pos, s)
         else
           (let data = ospfs_block blockno;
                blk_off = blk_off_of h s oi pos;
                n = chunk count amount blk_off;
                bytes = take (unat n) (drop (unat amount) ubuf)
            in if length ubuf < unat amount + unat n
               then (- EFAULT, amount, pos,
                     s\<lparr>ospfs_data := memcpy_to (ospfs_data s) (data + unat blk_off)
                          (bytes @ replicate (unat n - length bytes) 0)\<rparr>)
               else write_loop h
                      (s\<lparr>ospfs_data := memcpy_to (ospfs_data s) (data + unat blk_off) bytes\<rparr>)
                      oi ubuf count (amount + n) (pos + ucast n)))
      else (0, amount, pos, s))"
  by pat_completeness auto
termination
  by (relation "measure (\<lambda>(h, s, oi, ubuf, count, amount, pos). unat count - unat amount)")
    (auto simp add: chunk_advance(1) [OF _ blk_off_of_eq] chunk_measure)

declare write_loop.simps [simp del]

definition ospfs_write ::
  "ospfs_hdr \<Rightarrow> ospfs_state \<Rightarrow> nat \<Rightarrow> u32 \<Rightarrow> u8 list \<Rightarrow> u32 \<Rightarrow> loff_t
     \<Rightarrow> int \<times> loff_t \<times> ospfs_state" where
  "ospfs_write h s oi f_flags ubuf count f_pos =
     (let pos0 = (if f_flags AND O_APPEND \<noteq> 0 then ucast (oi_size (inodes s oi)) else f_pos);
          free_space = (ucast (ucast (oi_size (inodes s oi)) - pos0) :: u32);
          s1 = (if free_space < count
                then snd (change_size h s oi (oi_size (inodes s oi) + (count - free_space)))
                else s);
          (retval, amount, pos, s2) = write_loop h s1 oi ubuf count 0 pos0
      in ((if retval \<ge> 0 then sint amount else retval), pos, s2))"


subsection \<open>The blocks behind a range of a file\<close>








subsection \<open>Directories\<close>

text \<open>
  A directory entry (\<open>ospfs_direntry_t\<close>) is the 32-bit \<open>od_ino\<close> followed by the array
  \<open>od_name[OSPFS_MAXNAMELEN + 1]\<close>; a pointer to one is its byte offset in the image.
  \<open>strlen\<close> of the name reads the array up to its first 0 byte; C reads on past the
  array when it holds none (undefined behaviour), the model stops at the array's end.
  The loop counter \<open>off\<close> is a C \<open>int\<close> compared with the unsigned size; it is a
  natural number here, so that the loops end for every size (in C the counter
  overflows, undefined, in a directory of 2 GiB or more).
\<close>

definition strlen_arr :: "(nat \<Rightarrow> u8) \<Rightarrow> nat \<Rightarrow> nat \<Rightarrow> nat" where
  "strlen_arr m p n = length (takeWhile (\<lambda>b. b \<noteq> 0) (mem_bytes m p n))"

definition direntry_matches :: "ospfs_hdr \<Rightarrow> ospfs_state \<Rightarrow> nat \<Rightarrow> u8 list \<Rightarrow> int \<Rightarrow> bool" where
  "direntry_matches h s od name namelen =
     (get32 s od \<noteq> 0
      \<and> int (strlen_arr (ospfs_data s) (od + 4) (MAXNAMELEN h + 1)) = namelen
      \<and> mem_bytes (ospfs_data s) (od + 4) (nat namelen) = take (nat namelen) name)"

function find_direntry_loop ::
  "ospfs_hdr \<Rightarrow> ospfs_state \<Rightarrow> nat \<Rightarrow> u8 list \<Rightarrow> int \<Rightarrow> nat \<Rightarrow> nat option" where
  "find_direntry_loop h s dir_oi name namelen off =
     (if off < unat (oi_size (inodes s dir_oi)) then
        (let od = ospfs_inode_data h s dir_oi (of_nat off) in
         if direntry_matches h s od name namelen then Some od
         else find_direntry_loop h s dir_oi name namelen (off + OSPFS_DIRENTRY_SIZE h))
      else None)"
  by pat_completeness auto
termination
  by (relation "measure (\<lambda>(h, s, dir_oi, name, namelen, off).
        unat (oi_size (inodes s dir_oi)) - off)")
    (auto simp add: OSPFS_DIRENTRY_SIZE_def)

declare find_direntry_loop.simps [simp del]

definition find_direntry ::
  "ospfs_hdr \<Rightarrow> ospfs_state \<Rightarrow> nat \<Rightarrow> u8 list \<Rightarrow> int \<Rightarrow> nat option" where
  "find_direntry h s dir_oi name namelen =
     (let namelen' = (if namelen < 0 then int (length (takeWhile (\<lambda>b. b \<noteq> 0) name))
                      else namelen)
      in find_direntry_loop h s dir_oi name namelen' 0)"

text \<open>
  Linux's error pointers (linux/err.h): \<open>ERR_PTR\<close> casts a \<open>long\<close> to a pointer, \<open>IS_ERR\<close>
  holds of the pointers in the last 4095 bytes of the address space, \<open>PTR_ERR\<close> casts
  back. A pointer is the offset of a byte of the image or a bare machine address; the
  image is kernel data, so none of its bytes lies in the last page, and \<open>PTR_ERR\<close> is only
  applied to a pointer that \<open>IS_ERR\<close>.
\<close>

datatype pointer = Data nat | Addr int

definition ERR_PTR :: "int \<Rightarrow> pointer" where
  "ERR_PTR error = Addr error"

definition IS_ERR :: "pointer \<Rightarrow> bool" where
  "IS_ERR p = (case p of Data a \<Rightarrow> False
               | Addr v \<Rightarrow> (- 4095) mod 4294967296 \<le> v mod 4294967296)"

definition PTR_ERR :: "pointer \<Rightarrow> int" where
  "PTR_ERR p = (case p of Data a \<Rightarrow> 0 | Addr v \<Rightarrow> v)"

text \<open>Storing through a pointer that is not in the image: the kernel faults.\<close>

datatype fault = BadPointer int

function blank_scan :: "ospfs_hdr \<Rightarrow> ospfs_state \<Rightarrow> nat \<Rightarrow> nat \<Rightarrow> nat option \<times> nat" where
  "blank_scan h s dir_oi off =
     (if off < unat (oi_size (inodes s dir_oi)) then
        (let od = ospfs_inode_data h s dir_oi (of_nat off) in
         if get32 s od = 0 then (Some od, off)
         else blank_scan h s dir_oi (off + OSPFS_DIRENTRY_SIZE h))
      else (None, off))"
  by pat_completeness auto
termination
  by (relation "measure (\<lambda>(h, s, dir_oi, off). unat (oi_size (inodes s dir_oi)) - off)")
    (auto simp add: OSPFS_DIRENTRY_SIZE_def)

declare blank_scan.simps [simp del]

definition create_blank_direntry :: "ospfs_hdr \<Rightarrow> ospfs_state \<Rightarrow> nat \<Rightarrow> pointer \<times> ospfs_state" where
  "create_blank_direntry h s dir_oi =
     (case blank_scan h s dir_oi 0 of
        (Some od, off) \<Rightarrow> (Data od, s)
      | (None, off) \<Rightarrow>
          (let (success, s1) = add_block h s dir_oi in
           if success < 0 then (ERR_PTR (- success), s1)
           else
             (let od = ospfs_inode_data h s1 dir_oi (of_nat off) in
              if get32 s1 od \<noteq> 0 then (ERR_PTR (- EIO), s1) else (Data od, s1))))"

subsection \<open>Namespace operations\<close>

text \<open>
  A \<open>dentry\<close> is its name, the bytes \<open>d_name.name\<close> with \<open>d_name.len\<close> their number; a
  directory or source \<open>inode\<close> is its inode number. \<open>new_inode_ok\<close> says whether the
  kernel's \<open>new_inode\<close>, called by \<open>ospfs_mk_linux_inode\<close>, finds memory. The result is a
  fault where the code stores through a pointer outside the image (NULL is address 0).
\<close>

definition inode_zero :: "ospfs_hdr \<Rightarrow> ospfs_inode" where
  "inode_zero h =
     \<lparr>oi_size = 0, oi_ftype = 0, oi_nlink = 0, oi_mode = 0, oi_direct = (\<lambda>_. 0),
      oi_indirect = 0, oi_indirect2 = 0,
      oi_symlink = replicate (MAXSYMLINKLEN h + 1) (CHR 0x00)\<rparr>"

function inode_scan :: "ospfs_state \<Rightarrow> u32 \<Rightarrow> u32" where
  "inode_scan s entry_ino =
     (if entry_ino < os_ninodes s then
        (if oi_nlink (inodes s (unat entry_ino)) = 0 then entry_ino
         else inode_scan s (entry_ino + 1))
      else entry_ino)"
  by pat_completeness auto
termination
proof (relation "measure (\<lambda>(s, entry_ino). unat (os_ninodes s) - unat entry_ino)", goal_cases)
  case 1
  show ?case by simp
next
  case (2 s entry_ino)
  then have "unat entry_ino < unat (os_ninodes s)" by (simp add: word_less_nat_alt)
  moreover have "unat (os_ninodes s) < 2 ^ 32"
    using unsigned_less [of "os_ninodes s", where 'a = nat] by simp
  ultimately have "unat (entry_ino + 1) = unat entry_ino + 1"
    by (simp add: unat_word_ariths)
  with \<open>unat entry_ino < unat (os_ninodes s)\<close> show ?case by simp
qed

declare inode_scan.simps [simp del]

definition set_direntry_name :: "ospfs_state \<Rightarrow> nat \<Rightarrow> u8 list \<Rightarrow> ospfs_state" where
  "set_direntry_name s od name =
     (let m1 = memcpy_to (ospfs_data s) (od + 4) name
      in s\<lparr>ospfs_data := m1(od + 4 + length name := 0)\<rparr>)"

definition ospfs_link ::
  "ospfs_hdr \<Rightarrow> ospfs_state \<Rightarrow> u32 \<Rightarrow> u32 \<Rightarrow> u8 list \<Rightarrow> fault + int \<times> ospfs_state" where
  "ospfs_link h s src_ino dir name =
     (let destination_inode = src_ino in
      case ospfs_inode s dir of
        None \<Rightarrow> Inl (BadPointer 0)
      | Some containing_directory \<Rightarrow>
          if find_direntry h s containing_directory name (int (length name)) \<noteq> None
          then Inr (- EEXIST, s)
          else
            (let (new_dir_entry, s1) = create_blank_direntry h s containing_directory in
             if IS_ERR new_dir_entry then Inr (PTR_ERR new_dir_entry, s1)
             else if length name > MAXNAMELEN h then Inr (- ENAMETOOLONG, s1)
             else
               (case new_dir_entry of
                  Addr v \<Rightarrow> Inl (BadPointer v)
                | Data od \<Rightarrow>
                    (let s2 = set_direntry_name s1 od name;
                         s3 = put32 s2 od destination_inode
                     in case ospfs_inode s3 destination_inode of
                          None \<Rightarrow> Inl (BadPointer 0)
                        | Some target \<Rightarrow>
                            Inr (0, inode_upd s3 target (\<lambda>i. i\<lparr>oi_nlink := oi_nlink i + 1\<rparr>))))))"

definition ospfs_create ::
  "ospfs_hdr \<Rightarrow> ospfs_state \<Rightarrow> bool \<Rightarrow> u32 \<Rightarrow> u8 list \<Rightarrow> u32 \<Rightarrow> fault + int \<times> ospfs_state" where
  "ospfs_create h s new_inode_ok dir name mode =
     (if length name > MAXNAMELEN h then Inr (- ENAMETOOLONG, s)
      else
        (case ospfs_inode s dir of
           None \<Rightarrow> Inr (- EIO, s)
         | Some dir_oi \<Rightarrow>
             if find_direntry h s dir_oi name (int (length name)) \<noteq> None
             then Inr (- EEXIST, s)
             else
               (let (od, s1) = create_blank_direntry h s dir_oi in
                if IS_ERR od then Inr (PTR_ERR od, s1)
                else
                  (let entry_ino = inode_scan s1 0 in
                   if entry_ino = os_ninodes s1 then Inr (- ENOSPC, s1)
                   else
                     (case od of
                        Addr v \<Rightarrow> Inl (BadPointer v)
                      | Data a \<Rightarrow>
                          (let s2 = put32 s1 a entry_ino;
                               s3 = set_direntry_name s2 a name
                           in case ospfs_inode s3 (get32 s3 a) of
                                None \<Rightarrow> Inl (BadPointer 0)
                              | Some ino \<Rightarrow>
                                  (let s4 = inode_upd s3 ino (\<lambda>i. inode_zero h);
                                       s5 = inode_upd s4 ino (\<lambda>i. i\<lparr>oi_ftype := OSPFS_FTYPE_REG\<rparr>);
                                       s6 = inode_upd s5 ino (\<lambda>i. i\<lparr>oi_nlink := oi_nlink i + 1\<rparr>);
                                       s7 = inode_upd s6 ino (\<lambda>i. i\<lparr>oi_mode := mode\<rparr>)
                                   in if \<not> new_inode_ok then Inr (- ENOMEM, s7)
                                      else Inr (0, s7))))))))"

text \<open>\<open>strlen\<close> and \<open>strcpy\<close> on a C string given as its characters, and on the array
  \<open>oi_symlink\<close>.\<close>

definition NUL :: char where
  "NUL = CHR 0x00"

definition strlen :: "string \<Rightarrow> nat" where
  "strlen str = length (takeWhile (\<lambda>c. c \<noteq> NUL) str)"

definition strcpy :: "string \<Rightarrow> string \<Rightarrow> string" where
  "strcpy dest src = takeWhile (\<lambda>c. c \<noteq> NUL) src @ [NUL] @ drop (strlen src + 1) dest"

definition ospfs_symlink ::
  "ospfs_hdr \<Rightarrow> ospfs_state \<Rightarrow> bool \<Rightarrow> u32 \<Rightarrow> u8 list \<Rightarrow> string \<Rightarrow> fault + int \<times> ospfs_state" where
  "ospfs_symlink h s new_inode_ok dir name symname =
     (case ospfs_inode s dir of
        None \<Rightarrow>
          if length name > MAXNAMELEN h \<or> strlen symname > MAXSYMLINKLEN h
          then Inr (- ENAMETOOLONG, s) else Inl (BadPointer 0)
      | Some containing_directory \<Rightarrow>
          if length name > MAXNAMELEN h \<or> strlen symname > MAXSYMLINKLEN h
          then Inr (- ENAMETOOLONG, s)
          else if find_direntry h s containing_directory name (int (length name)) \<noteq> None
          then Inr (- EEXIST, s)
          else
            (let entry_ino = inode_scan s 0 in
             if entry_ino = os_ninodes s then Inr (- ENOSPC, s)
             else
               (let entry_oi = unat entry_ino;
                    (new_dir_entry, s1) = create_blank_direntry h s containing_directory
                in if IS_ERR new_dir_entry then Inr (PTR_ERR new_dir_entry, s1)
                   else
                     (let s2 = inode_upd s1 entry_oi (\<lambda>i. i\<lparr>oi_size := of_nat (strlen symname)\<rparr>);
                          s3 = inode_upd s2 entry_oi (\<lambda>i. i\<lparr>oi_ftype := OSPFS_FTYPE_SYMLINK\<rparr>);
                          s4 = inode_upd s3 entry_oi (\<lambda>i. i\<lparr>oi_nlink := 1\<rparr>);
                          s5 = inode_upd s4 entry_oi
                                 (\<lambda>i. i\<lparr>oi_symlink := strcpy (oi_symlink i) symname\<rparr>)
                      in case new_dir_entry of
                           Addr v \<Rightarrow> Inl (BadPointer v)
                         | Data od \<Rightarrow>
                             (let s6 = put32 s5 od entry_ino;
                                  s7 = set_direntry_name s6 od name
                              in if \<not> new_inode_ok then Inr (- ENOMEM, s7)
                                 else Inr (0, s7))))))"

subsection \<open>Following a symbolic link\<close>

text \<open>
  \<open>strncpy(dest, src, n)\<close> with \<open>n\<close> the length of \<open>src\<close> stores the \<open>n\<close> characters
  and no terminator, and returns \<open>dest\<close>, which is the address of a field of an inode
  and so not NULL: the test on its result succeeds. \<open>nd_set_link\<close> records a pointer
  into \<open>oi_symlink\<close>; the path the kernel then follows is the C string there, and there is
  none in the model when the pointer is past the array.
\<close>

definition strncpy :: "string \<Rightarrow> string \<Rightarrow> nat \<Rightarrow> bool \<times> string" where
  "strncpy dest src n = (True, take n src @ drop n dest)"

function colon_scan :: "string \<Rightarrow> nat \<Rightarrow> string \<times> nat" where
  "colon_scan buf i =
     (if i < strlen buf then
        (if buf ! i = CHR '':'' then (buf[i := NUL], i) else colon_scan buf (i + 1))
      else (buf, i))"
  by pat_completeness auto
termination
  by (relation "measure (\<lambda>(buf, i). strlen buf - i)") auto

declare colon_scan.simps [simp del]

definition link_target :: "string \<Rightarrow> nat \<Rightarrow> string option" where
  "link_target buf p =
     (if p < length buf then Some (takeWhile (\<lambda>c. c \<noteq> NUL) (drop p buf)) else None)"

text \<open>
  \<open>current\<close> is the kernel's record of the calling process (\<open>struct task_struct\<close>). The
  kernels this module builds for keep the user ids of a process in separate fields of
  that record, of which \<open>uid\<close> is the real user id and \<open>euid\<close> the effective one; a
  set-uid program run by user 1000 has \<open>uid = 1000\<close> and \<open>euid = 0\<close>. The code reads
  \<open>current->uid\<close>.
\<close>

record task_struct =
  uid :: u32
  euid :: u32

definition ospfs_follow_link ::
  "ospfs_state \<Rightarrow> nat \<Rightarrow> task_struct \<Rightarrow> string option \<times> ospfs_state" where
  "ospfs_follow_link s oi current =
     (let (nonnull, buf1) = strncpy (oi_symlink (inodes s oi)) ''root?'' 5 in
      if nonnull then
        (let (buf2, i) = colon_scan buf1 0;
             s1 = inode_upd s oi (\<lambda>ino. ino\<lparr>oi_symlink := buf2\<rparr>)
         in if uid current = 0 then (link_target buf2 5, s1)
            else (link_target buf2 (i + 1), s1))
      else
        (let s1 = inode_upd s oi (\<lambda>ino. ino\<lparr>oi_symlink := buf1\<rparr>)
         in (link_target buf1 0, s1)))"

section \<open>Facts about the memory and the allocator\<close>

lemma ld32_zero [simp]: "ld32 (\<lambda>_. 0) a = 0"
  by (simp add: ld32_def)

lemma ld32_st32_same [simp]: "ld32 (st32 m a v) a = v"
  apply (simp add: ld32_def st32_def)
  apply (rule bit_word_eqI)
  subgoal for n
    apply (cases "n < 8"; cases "n < 16"; cases "n < 24")
    apply (auto simp add: bit_simps)
    done
  done

lemma ld32_st32_disj: "a + 4 \<le> b \<or> b + 4 \<le> a \<Longrightarrow> ld32 (st32 m a v) b = ld32 m b"
  by (auto simp add: ld32_def st32_def)

lemma ld32_st32_aligned:
  assumes "4 dvd a" and "4 dvd b"
  shows "ld32 (st32 m a v) b = (if b = a then v else ld32 m b)"
proof (cases "b = a")
  case True then show ?thesis by simp
next
  case False
  from assms obtain i j where "a = 4 * i" "b = 4 * j" by (auto elim!: dvdE)
  with False have "a + 4 \<le> b \<or> b + 4 \<le> a" by auto
  with False show ?thesis by (simp add: ld32_st32_disj)
qed

lemma ld32_memset0_aligned:
  assumes "4 dvd p" and "4 dvd n" and "4 dvd b"
  shows "ld32 (memset0 m p n) b = (if p \<le> b \<and> b < p + n then 0 else ld32 m b)"
proof -
  from assms obtain i j k where e: "p = 4 * i" "n = 4 * k" "b = 4 * j" by (auto elim!: dvdE)
  have "i \<le> j \<and> j < i + k \<or> j < i \<or> i + k \<le> j" by auto
  then show ?thesis
    by (elim disjE) (auto simp add: ld32_def memset0_def e)
qed

lemma slot_aligned: "4 dvd p \<Longrightarrow> 4 dvd slot p i"
proof -
  assume "4 dvd p"
  then obtain q where "p = 4 * q" by (auto elim!: dvdE)
  then have "int p + 4 * i = 4 * (int q + i)" by simp
  then have "slot p i = 4 * nat (int q + i)" by (simp add: slot_def nat_mult_distrib)
  then show ?thesis by simp
qed

lemma bitvector_test_bit:
  "0 \<le> i \<Longrightarrow> bitvector_test m v i = bit (ld32 m (slot v (i div 32))) (nat (i mod 32))"
  by (simp add: bitvector_test_def bit_iff_and_push_bit_not_eq_0)

lemma alloc_scan_none:
  "(\<And>i. bitno \<le> i \<Longrightarrow> i < num \<Longrightarrow> \<not> bitvector_test m v i) \<Longrightarrow> bitno \<le> num
     \<Longrightarrow> alloc_scan m v bitno num = (False, num)"
proof (induction m v bitno num rule: alloc_scan.induct)
  case (1 m vector bitno num_bits)
  show ?case
  proof (cases "bitno < num_bits")
    case True
    then have nt: "\<not> bitvector_test m vector bitno" using "1.prems" by simp
    have "alloc_scan m vector (bitno + 1) num_bits = (False, num_bits)"
      using True "1.prems" nt by (intro "1.IH") auto
    then show ?thesis using True nt by (subst alloc_scan.simps) simp
  next
    case False
    then show ?thesis using "1.prems" by (subst alloc_scan.simps) simp
  qed
qed

lemma alloc_scan_first:
  "bitno \<le> k \<Longrightarrow> k < num \<Longrightarrow> bitvector_test m v k
     \<Longrightarrow> (\<And>i. bitno \<le> i \<Longrightarrow> i < k \<Longrightarrow> \<not> bitvector_test m v i)
     \<Longrightarrow> alloc_scan m v bitno num = (True, k)"
proof (induction m v bitno num rule: alloc_scan.induct)
  case (1 m vector bitno num_bits)
  show ?case
  proof (cases "bitno = k")
    case True
    then show ?thesis using "1.prems" by (subst alloc_scan.simps) simp
  next
    case False
    then have lt: "bitno < k" using "1.prems" by simp
    then have nt: "\<not> bitvector_test m vector bitno" using "1.prems" by simp
    have "alloc_scan m vector (bitno + 1) num_bits = (True, k)"
      using lt nt "1.prems" by (intro "1.IH") auto
    then show ?thesis using lt nt "1.prems" by (subst alloc_scan.simps) simp
  qed
qed

definition num_bits :: "ospfs_state \<Rightarrow> int" where
  "num_bits s = sint (os_firstinob s - OSPFS_FREEMAP_BLK) * sint OSPFS_BLKSIZE * 8"

lemma allocate_block_full:
  assumes "\<And>i. 0 \<le> i \<Longrightarrow> i < num_bits s \<Longrightarrow>
             \<not> bitvector_test (ospfs_data s) (ospfs_block OSPFS_FREEMAP_BLK) i"
    and "0 \<le> num_bits s"
  shows "allocate_block s = (0, s)"
  using alloc_scan_none [of 0 "num_bits s" "ospfs_data s" "ospfs_block OSPFS_FREEMAP_BLK"] assms
  by (simp add: allocate_block_def num_bits_def)

lemma allocate_block_first:
  assumes "0 \<le> k" "k < num_bits s"
    and "bitvector_test (ospfs_data s) (ospfs_block OSPFS_FREEMAP_BLK) k"
    and "\<And>i. 0 \<le> i \<Longrightarrow> i < k \<Longrightarrow>
             \<not> bitvector_test (ospfs_data s) (ospfs_block OSPFS_FREEMAP_BLK) i"
  shows "allocate_block s =
           (word_of_int k,
            s\<lparr>ospfs_data := bitvector_clear (ospfs_data s) (ospfs_block OSPFS_FREEMAP_BLK) k\<rparr>)"
  using alloc_scan_first [of 0 k "num_bits s" "ospfs_data s" "ospfs_block OSPFS_FREEMAP_BLK"] assms
  by (simp add: allocate_block_def num_bits_def)

section \<open>Growth is rolled back too far (C1)\<close>

text \<open>
  The evaluations below run the code on small images. Their header has 10 direct
  pointers, names of up to 59 and link targets of up to 40 characters, and directory
  entries of 64 bytes.
\<close>

definition lab_hdr :: ospfs_hdr where
  "lab_hdr = \<lparr>NDIRECT = 10, MAXNAMELEN = 59, MAXSYMLINKLEN = 40, DIRENTRY_PAD = 0\<rparr>"

definition c1_state :: ospfs_state where
  "c1_state = \<lparr>os_firstinob = 3, os_ninodes = 8,
     inodes = (\<lambda>_. inode_zero lab_hdr)
       (2 := (inode_zero lab_hdr)\<lparr>oi_size := 100, oi_ftype := OSPFS_FTYPE_REG, oi_nlink := 1,
              oi_direct := (\<lambda>_. 0)(0 := 5)\<rparr>),
     ospfs_data = st32 (\<lambda>_. 0) 2048 64\<rparr>"

lemma bit_64: "bit (64 :: u32) n = (n = 6)"
proof -
  have "(64 :: u32) = 2 ^ 6" by simp
  then show ?thesis by (simp only: bit_exp_iff) auto
qed

lemma lab_consts:
  "OSPFS_NDIRECT lab_hdr = 10" "OSPFS_MAXFILEBLKS lab_hdr = 65802"
  "OSPFS_NINDIRECT = 256" "OSPFS_BLKSIZE = 1024" "OSPFS_FREEMAP_BLK = 2"
  by (simp_all add: OSPFS_NDIRECT_def lab_hdr_def OSPFS_MAXFILEBLKS_def OSPFS_NINDIRECT_def
      OSPFS_BLKSIZE_def OSPFS_FREEMAP_BLK_def)

lemma c1_alloc1:
  "allocate_block c1_state =
     (6, c1_state\<lparr>ospfs_data := bitvector_clear (ospfs_data c1_state) 2048 6\<rparr>)"
proof -
  have nb: "num_bits c1_state = 8192" by (simp add: num_bits_def c1_state_def lab_consts)
  have t: "bitvector_test (ospfs_data c1_state) 2048 i = (i = 6)" if "0 \<le> i" "i < 32" for i
  proof -
    have "bitvector_test (ospfs_data c1_state) 2048 i = bit (64 :: u32) (nat i)"
      using that by (simp add: bitvector_test_bit c1_state_def slot_def)
    then show ?thesis using that by (simp only: bit_64) auto
  qed
  show ?thesis
    using allocate_block_first [of 6 c1_state] t
    by (simp add: nb ospfs_block_def lab_consts)
qed


lemmas step_defs = add_block_def add_block_direct_def remove_block_def remove_block_direct_def
  ospfs_size2nblocks_def add_block_size_def remove_block_size_def indir_index_def
  indir2_index_def direct_index_def inode_upd_def zero_block_def free_block_def
  ospfs_block_def ENOSPC_def EIO_def Let_def word_le_nat_alt word_less_nat_alt lab_consts

definition c1_s1 :: ospfs_state where
  "c1_s1 = snd (add_block lab_hdr c1_state 2)"

lemma c1_inode2 [simp]:
  "oi_size (inodes c1_state 2) = 100" "oi_direct (inodes c1_state 2) 0 = 5"
  by (simp_all add: c1_state_def)

lemma c1_s1_eq:
  "c1_s1 = c1_state\<lparr>
     ospfs_data := memset0 (bitvector_clear (ospfs_data c1_state) 2048 6) 6144 1024,
     inodes := (inodes c1_state)(2 := (inodes c1_state 2)\<lparr>
        oi_direct := (oi_direct (inodes c1_state 2))(1 := 6), oi_size := 2048\<rparr>)\<rparr>"
  by (simp add: c1_s1_def step_defs c1_alloc1)

lemma c1_add1: "add_block lab_hdr c1_state 2 = (0, c1_s1)"
  by (simp add: c1_s1_def step_defs c1_alloc1)

lemma c1_s1_full: "allocate_block c1_s1 = (0, c1_s1)"
proof (rule allocate_block_full)
  show "0 \<le> num_bits c1_s1" by (simp add: num_bits_def c1_s1_eq c1_state_def lab_consts)
next
  fix i :: int assume i: "0 \<le> i" "i < num_bits c1_s1"
  then have "i < 8192" by (simp add: num_bits_def c1_s1_eq c1_state_def lab_consts)
  then have j: "i div 32 < 256" by simp
  have j0: "0 \<le> i div 32" using i by simp
  have "ld32 (ospfs_data c1_s1) (slot 2048 (i div 32)) = 0"
    using j j0
    by (simp add: c1_s1_eq c1_state_def bitvector_clear_def ld32_memset0_aligned
        ld32_st32_aligned slot_aligned) (simp add: slot_def)
  then show "\<not> bitvector_test (ospfs_data c1_s1) (ospfs_block OSPFS_FREEMAP_BLK) i"
    using i by (simp add: bitvector_test_bit ospfs_block_def lab_consts)
qed

lemma c1_add2: "add_block lab_hdr c1_s1 2 = (- ENOSPC, c1_s1)"
  using c1_s1_full by (simp add: step_defs) (simp add: c1_s1_eq)


lemma c1_s1_inode [simp]:
  "oi_size (inodes c1_s1 2) = 2048" "oi_direct (inodes c1_s1 2) 0 = 5"
  "oi_direct (inodes c1_s1 2) (Suc 0) = 6"
  by (simp_all add: c1_s1_eq)

definition c1_s2 :: ospfs_state where
  "c1_s2 = snd (remove_block lab_hdr c1_s1 2)"

definition c1_s3 :: ospfs_state where
  "c1_s3 = snd (remove_block lab_hdr c1_s2 2)"

lemma c1_rm1: "remove_block lab_hdr c1_s1 2 = (0, c1_s2)"
  by (simp add: c1_s2_def step_defs)

lemma c1_s2_inode [simp]:
  "oi_size (inodes c1_s2 2) = 1024" "oi_direct (inodes c1_s2 2) 0 = 5"
  by (simp_all add: c1_s2_def step_defs)

lemma c1_rm2: "remove_block lab_hdr c1_s2 2 = (0, c1_s3)"
  by (simp add: c1_s3_def step_defs)

lemma c1_s3_size [simp]: "oi_size (inodes c1_s3 2) = 0"
  by (simp add: c1_s3_def step_defs)

lemma c1_s3_data:
  "ospfs_data c1_s3 = bitvector_set (bitvector_set (ospfs_data c1_s1) 2048 6) 2048 5"
  by (simp add: c1_s3_def c1_s2_def step_defs)


lemma c1_undo: "change_size_undo lab_hdr c1_s1 2 100 = (- ENOSPC, c1_s3)"
proof -
  have 3: "change_size_undo lab_hdr c1_s3 2 100 = (- ENOSPC, c1_s3)"
    by (subst change_size_undo.simps) (simp add: word_less_nat_alt)
  have 2: "change_size_undo lab_hdr c1_s2 2 100 = (- ENOSPC, c1_s3)"
    by (subst change_size_undo.simps) (simp add: word_less_nat_alt c1_rm2 3)
  show ?thesis
    by (subst change_size_undo.simps) (simp add: word_less_nat_alt c1_rm1 2)
qed

lemma c1_grow: "change_size_grow lab_hdr c1_state 2 100 3000 = (- ENOSPC, c1_s3)"
proof -
  have 1: "change_size_grow lab_hdr c1_s1 2 100 3000 = (- ENOSPC, c1_s3)"
    by (subst change_size_grow.simps)
      (simp add: word_less_nat_alt ospfs_size2nblocks_def c1_add2 c1_undo lab_consts)
  show ?thesis
    by (subst change_size_grow.simps)
      (simp add: word_less_nat_alt ospfs_size2nblocks_def c1_add1 1 ENOSPC_def lab_consts)
qed

text \<open>
  Claim C1: when an \<open>add_block\<close> fails with \<open>ENOSPC\<close> while \<open>change_size\<close> grows a file,
  \<open>change_size\<close> returns \<open>-ENOSPC\<close> with the file's size and every bit of the free-block
  bitmap as they were at entry, for every starting size. The code does not do this when
  the starting size is not a multiple of the block size: the first \<open>add_block\<close> rounds the
  size up, and the roll-back loop then removes whole blocks while the size is above the
  old one, so it also removes the block that held the file's last bytes. Here the file
  has 100 bytes in block 5, block 6 is the only free block, and the request is for 3000
  bytes: \<open>change_size\<close> returns \<open>-ENOSPC\<close>, the size is 0 and block 5 is marked free.
\<close>

theorem change_size_rollback_overshoots:
  "case change_size lab_hdr c1_state 2 3000 of
     (r, s') \<Rightarrow> r = - ENOSPC
        \<and> oi_size (inodes c1_state 2) = 100 \<and> oi_size (inodes s' 2) = 0
        \<and> \<not> bitvector_test (ospfs_data c1_state) (ospfs_block OSPFS_FREEMAP_BLK) 5
        \<and> bitvector_test (ospfs_data s') (ospfs_block OSPFS_FREEMAP_BLK) 5"
proof -
  have a: "\<not> bitvector_test (ospfs_data c1_state) 2048 5"
    by (simp add: bitvector_test_bit c1_state_def slot_def bit_64)
  have "ld32 (ospfs_data c1_s3) 2048 = 96"
    by (simp add: c1_s3_data c1_s1_eq c1_state_def bitvector_set_def bitvector_clear_def slot_def
        ld32_memset0_aligned ld32_st32_aligned)
  then have b: "bitvector_test (ospfs_data c1_s3) 2048 5"
    by (simp add: bitvector_test_def slot_def)
  show ?thesis
    using a b by (simp add: change_size_def c1_grow ENOSPC_def ospfs_block_def lab_consts)
qed

section \<open>The slot of a block in its indirect block (C4)\<close>

text \<open>
  Claim C4: the direct-slot function returns \<open>b\<close> in the direct range, \<open>b - ND\<close> in the
  indirect range and \<open>(b - ND - NI) mod NI\<close> in the doubly-indirect range. In the last
  range the code takes the remainder by \<open>OSPFS_NINDIRECT + OSPFS_NDIRECT\<close>, not by
  \<open>OSPFS_NINDIRECT\<close>: with 10 direct pointers, block 522 (the first block of the second
  indirect block) gets slot 256, past the end of a 256-entry block, where the claim and
  \<open>ospfs_inode_blockno\<close> have slot 0.
\<close>

theorem direct_index_indirect2_wraps_late:
  "direct_index lab_hdr 522 = 256
   \<and> direct_index lab_hdr 522
       \<noteq> uint ((522 - (OSPFS_NDIRECT lab_hdr + OSPFS_NINDIRECT)) mod OSPFS_NINDIRECT)"
  by (simp add: direct_index_def lab_consts word_le_nat_alt word_less_nat_alt)

section \<open>Following symbolic links (C3, C7)\<close>

text \<open>An image whose inode 3 is a symbolic link to \<open>/a/b/c\<close>.\<close>

definition c3_state :: ospfs_state where
  "c3_state = \<lparr>os_firstinob = 3, os_ninodes = 8,
     inodes = (\<lambda>_. inode_zero lab_hdr)
       (3 := (inode_zero lab_hdr)\<lparr>oi_size := 6, oi_ftype := OSPFS_FTYPE_SYMLINK, oi_nlink := 1,
              oi_symlink := ''/a/b/c'' @ replicate 35 NUL\<rparr>),
     ospfs_data = (\<lambda>_. 0)\<rparr>"

lemma colon_scan_first:
  "i \<le> k \<Longrightarrow> k < strlen buf \<Longrightarrow> buf ! k = CHR '':''
     \<Longrightarrow> (\<And>j. i \<le> j \<Longrightarrow> j < k \<Longrightarrow> buf ! j \<noteq> CHR '':'')
     \<Longrightarrow> colon_scan buf i = (buf[k := NUL], k)"
proof (induction "k - i" arbitrary: i)
  case 0
  then have "i = k" by simp
  with 0 show ?case by (subst colon_scan.simps) simp
next
  case (Suc d)
  then have lt: "i < k" by simp
  then have ne: "buf ! i \<noteq> CHR '':''" using Suc.prems by simp
  have "colon_scan buf (i + 1) = (buf[k := NUL], k)"
    using Suc lt by (intro Suc.hyps) auto
  then show ?case using lt ne Suc.prems by (subst colon_scan.simps) simp
qed

lemma colon_scan_none:
  "i \<le> strlen buf \<Longrightarrow> (\<And>j. i \<le> j \<Longrightarrow> j < strlen buf \<Longrightarrow> buf ! j \<noteq> CHR '':'')
     \<Longrightarrow> colon_scan buf i = (buf, strlen buf)"
proof (induction "strlen buf - i" arbitrary: i)
  case 0
  then show ?case by (subst colon_scan.simps) simp
next
  case (Suc d)
  then have lt: "i < strlen buf" by simp
  then have ne: "buf ! i \<noteq> CHR '':''" using Suc.prems by simp
  have "colon_scan buf (i + 1) = (buf, strlen buf)"
    using Suc lt by (intro Suc.hyps) auto
  then show ?case using lt ne by (subst colon_scan.simps) simp
qed

lemma takeWhile_NUL:
  "NUL \<notin> set xs \<Longrightarrow> takeWhile (\<lambda>c. c \<noteq> NUL) (xs @ NUL # ys) = xs"
  by (induction xs) auto

lemma strlen_append_NUL: "NUL \<notin> set xs \<Longrightarrow> strlen (xs @ NUL # ys) = length xs"
  by (induction xs) (auto simp add: strlen_def)

text \<open>
  Claim C3: a symbolic link whose stored target does not begin with \<open>root?\<close> resolves to
  the stored target, for any user. The code tests the result of \<open>strncpy\<close> where it means
  to compare: the call overwrites the first five characters of the stored target with
  \<open>root?\<close> and its result is never NULL, so every link is treated as a conditional one.
  The link to \<open>/a/b/c\<close> resolves to \<open>c\<close> for user 0 and to the empty path for user 1000
  (processes whose real and effective user ids are the same).
\<close>

theorem follow_link_plain_target_is_cut:
  "fst (ospfs_follow_link c3_state 3 \<lparr>uid = 0, euid = 0\<rparr>) = Some ''c''
   \<and> fst (ospfs_follow_link c3_state 3 \<lparr>uid = 1000, euid = 1000\<rparr>) = Some ''''
   \<and> link_target (oi_symlink (inodes c3_state 3)) 0 = Some ''/a/b/c''"
proof -
  let ?buf = "''root?c'' @ replicate 35 NUL"
  have len: "strlen ?buf = 6" by (simp add: strlen_def NUL_def)
  have "colon_scan ?buf 0 = (?buf, strlen ?buf)"
  proof (rule colon_scan_none)
    fix j assume "j < strlen ?buf"
    then have "j < 6" by (simp only: len)
    then have "j \<in> {0, 1, 2, 3, 4, 5}" by auto
    then show "?buf ! j \<noteq> CHR '':''" by auto
  qed simp
  then have cs: "colon_scan ?buf 0 = (?buf, 6)" by (simp only: len)
  have buf: "oi_symlink (inodes c3_state 3) = ''/a/b/c'' @ replicate 35 NUL"
    by (simp add: c3_state_def)
  show ?thesis
    by (simp add: ospfs_follow_link_def strncpy_def buf cs [simplified] link_target_def)
      (simp add: NUL_def)
qed

lemma colon_scan_append:
  assumes "CHR '':'' \<notin> set P" and "NUL \<notin> set P" and "NUL \<notin> set B"
  shows "colon_scan (P @ CHR '':'' # B @ NUL # rest) 0 = (P @ NUL # B @ NUL # rest, length P)"
proof -
  let ?buf = "P @ CHR '':'' # B @ NUL # rest"
  have "NUL \<notin> set (P @ CHR '':'' # B)" using assms by (auto simp add: NUL_def)
  then have "strlen ((P @ CHR '':'' # B) @ NUL # rest) = length (P @ CHR '':'' # B)"
    by (rule strlen_append_NUL)
  then have len: "strlen ?buf = length P + 1 + length B" by simp
  have before: "?buf ! j \<noteq> CHR '':''" if "j < length P" for j
  proof -
    have "?buf ! j = P ! j" using that by (simp add: nth_append)
    moreover have "P ! j \<in> set P" using that by simp
    ultimately show ?thesis using assms(1) by metis
  qed
  have "colon_scan ?buf 0 = (?buf[length P := NUL], length P)"
    using before by (intro colon_scan_first) (simp_all add: len)
  then show ?thesis by (simp add: list_update_append)
qed

lemma link_target_first:
  "NUL \<notin> set A \<Longrightarrow> link_target (Q @ A @ NUL # rest) (length Q) = Some A"
  by (simp add: link_target_def takeWhile_NUL)

lemma follow_link_root_form:
  assumes buf: "oi_symlink (inodes s oi) = ''root?'' @ A @ CHR '':'' # B @ NUL # rest"
    and A: "CHR '':'' \<notin> set A" "NUL \<notin> set A"
    and B: "NUL \<notin> set B"
  shows "ospfs_follow_link s oi current =
           (Some (if uid current = 0 then A else B),
            inode_upd s oi (\<lambda>ino. ino\<lparr>oi_symlink := ''root?'' @ A @ NUL # B @ NUL # rest\<rparr>))"
proof -
  define Q where "Q = ''root?''"
  define buf2 where "buf2 = Q @ A @ NUL # B @ NUL # rest"
  have Q: "length Q = 5" "CHR '':'' \<notin> set Q" "NUL \<notin> set Q"
    by (simp_all add: Q_def NUL_def)
  have sn: "strncpy (oi_symlink (inodes s oi)) ''root?'' 5 = (True, Q @ A @ CHR '':'' # B @ NUL # rest)"
    by (simp add: buf strncpy_def Q_def)
  have "colon_scan ((Q @ A) @ CHR '':'' # B @ NUL # rest) 0
          = ((Q @ A) @ NUL # B @ NUL # rest, length (Q @ A))"
    using A B Q by (intro colon_scan_append) auto
  then have cs: "colon_scan (Q @ A @ CHR '':'' # B @ NUL # rest) 0 = (buf2, 5 + length A)"
    by (simp add: Q buf2_def)
  have t0: "link_target buf2 5 = Some A"
    using link_target_first [OF A(2), of Q "B @ NUL # rest"] by (simp add: Q buf2_def)
  have t1: "link_target buf2 (6 + length A) = Some B"
    using link_target_first [OF B, of "Q @ A @ [NUL]" rest] by (simp add: Q buf2_def)
  have b2: "buf2 = ''root?'' @ A @ NUL # B @ NUL # rest"
    by (simp add: buf2_def Q_def)
  have "ospfs_follow_link s oi current =
          (Some (if uid current = 0 then A else B),
           inode_upd s oi (\<lambda>ino. ino\<lparr>oi_symlink := buf2\<rparr>))"
    by (simp add: ospfs_follow_link_def sn cs t0 t1)
  then show ?thesis by (simp only: b2)
qed

text \<open>
  Claim C7: a symbolic link whose stored string is \<open>root?A:B\<close>, \<open>A\<close> running up to the
  first colon after the prefix, resolves to \<open>A\<close> when the effective user id is 0 and to
  \<open>B\<close> for any other. The code decides on \<open>current->uid\<close>, the real user id of the
  calling process, and never reads the effective one. What holds of the code, for every
  process: the link resolves to \<open>A\<close> when the real user id is 0 and to \<open>B\<close> otherwise.
  The stored string is the content of \<open>oi_symlink\<close> up to its terminator; what follows
  the terminator in the array is arbitrary.
\<close>

theorem follow_link_conditional:
  assumes buf: "oi_symlink (inodes s oi) = ''root?'' @ A @ CHR '':'' # B @ NUL # rest"
    and A: "CHR '':'' \<notin> set A" "NUL \<notin> set A"
    and B: "NUL \<notin> set B"
  shows "fst (ospfs_follow_link s oi current) = Some (if uid current = 0 then A else B)"
  by (simp add: follow_link_root_form [OF buf A B])

section \<open>Creating entries on small images (C2, C6)\<close>

lemma allocate_block_6:
  assumes "os_firstinob s = 3" and "ospfs_data s = st32 (\<lambda>_. 0) 2048 64"
  shows "allocate_block s = (6, s\<lparr>ospfs_data := bitvector_clear (ospfs_data s) 2048 6\<rparr>)"
proof -
  have nb: "num_bits s = 8192" by (simp add: num_bits_def assms lab_consts)
  have t: "bitvector_test (ospfs_data s) 2048 i = (i = 6)" if "0 \<le> i" "i < 32" for i
  proof -
    have "bitvector_test (ospfs_data s) 2048 i = bit (64 :: u32) (nat i)"
      using that by (simp add: bitvector_test_bit assms slot_def)
    then show ?thesis using that by (simp only: bit_64) auto
  qed
  show ?thesis
    using allocate_block_first [of 6 s] t
    by (simp add: nb ospfs_block_def lab_consts)
qed

lemma allocate_block_none:
  assumes "os_firstinob s = 3" and "ospfs_data s = (\<lambda>_. 0)"
  shows "allocate_block s = (0, s)"
proof (rule allocate_block_full)
  show "0 \<le> num_bits s" by (simp add: num_bits_def assms lab_consts)
next
  fix i :: int assume "0 \<le> i"
  then show "\<not> bitvector_test (ospfs_data s) (ospfs_block OSPFS_FREEMAP_BLK) i"
    by (simp add: bitvector_test_bit assms)
qed

text \<open>A full disk: a free inode (2), a file of three blocks (inode 3) and an empty
  directory (inode 4); no block is free.\<close>

definition c2_state :: ospfs_state where
  "c2_state = \<lparr>os_firstinob = 3, os_ninodes = 8,
     inodes = (\<lambda>_. (inode_zero lab_hdr)\<lparr>oi_nlink := 1\<rparr>)
       (2 := inode_zero lab_hdr,
        3 := (inode_zero lab_hdr)\<lparr>oi_size := 3072, oi_ftype := OSPFS_FTYPE_REG, oi_nlink := 1,
               oi_direct := (\<lambda>_. 0)(0 := 4, 1 := 5, 2 := 6)\<rparr>,
        4 := (inode_zero lab_hdr)\<lparr>oi_ftype := OSPFS_FTYPE_DIR, oi_nlink := 1\<rparr>),
     ospfs_data = (\<lambda>_. 0)\<rparr>"

lemma c2_find: "find_direntry lab_hdr c2_state 4 name (int (length name)) = None"
  by (simp add: find_direntry_def c2_state_def inode_zero_def)
    (subst find_direntry_loop.simps, simp)

lemma c2_blank:
  "create_blank_direntry lab_hdr c2_state 4 = (Addr 28, c2_state)"
proof -
  have b: "blank_scan lab_hdr c2_state 4 0 = (None, 0)"
    by (subst blank_scan.simps) (simp add: c2_state_def inode_zero_def)
  have a: "allocate_block c2_state = (0, c2_state)"
    by (rule allocate_block_none) (simp_all add: c2_state_def)
  have "add_block lab_hdr c2_state 4 = (- ENOSPC, c2_state)"
    by (simp add: step_defs a) (simp add: c2_state_def inode_zero_def)
  then show ?thesis
    by (simp add: create_blank_direntry_def b ERR_PTR_def ENOSPC_def)
qed

lemma c2_inodes:
  "os_ninodes c2_state = 8" "oi_nlink (inodes c2_state 0) = 1"
  "oi_nlink (inodes c2_state (Suc 0)) = 1" "oi_nlink (inodes c2_state 2) = 0"
  by (simp_all add: c2_state_def inode_zero_def)

lemma c2_scan: "inode_scan c2_state 0 = 2"
proof -
  have 2: "inode_scan c2_state 2 = 2"
    by (subst inode_scan.simps) (simp add: c2_inodes word_less_nat_alt)
  have 1: "inode_scan c2_state 1 = 2"
    by (subst inode_scan.simps) (simp add: c2_inodes word_less_nat_alt 2)
  show ?thesis
    by (subst inode_scan.simps) (simp add: c2_inodes word_less_nat_alt 1)
qed

text \<open>
  Claim C2: when \<open>create_blank_direntry\<close> must extend the directory and \<open>add_block\<close>
  fails with \<open>ENOSPC\<close>, the error reaches the caller, so that create, link and symlink
  return \<open>-ENOSPC\<close>. The code returns \<open>ERR_PTR(-success)\<close> with \<open>success\<close> the negative
  result of \<open>add_block\<close>: the pointer with address 28, which \<open>IS_ERR\<close> does not take for
  an error. On a full disk with a free inode the three callers go on and store the new
  entry through that pointer.
\<close>

theorem create_blank_direntry_enospc_is_lost:
  "create_blank_direntry lab_hdr c2_state 4 = (ERR_PTR ENOSPC, c2_state)
   \<and> \<not> IS_ERR (ERR_PTR ENOSPC)
   \<and> ospfs_create lab_hdr c2_state True 4 [0x61] 0x1A4 = Inl (BadPointer 28)
   \<and> ospfs_link lab_hdr c2_state 3 4 [0x61] = Inl (BadPointer 28)
   \<and> ospfs_symlink lab_hdr c2_state True 4 [0x61] ''/t'' = Inl (BadPointer 28)"
proof -
  have d: "ospfs_inode c2_state 4 = Some 4"
    by (simp add: ospfs_inode_def c2_state_def word_le_nat_alt)
  have e: "\<not> IS_ERR (Addr 28)" by (simp add: IS_ERR_def)
  have l: "MAXNAMELEN lab_hdr = 59" "MAXSYMLINKLEN lab_hdr = 40" by (simp_all add: lab_hdr_def)
  have f: "find_direntry lab_hdr c2_state 4 [0x61] 1 = None" using c2_find [of "[0x61]"] by simp
  have "ospfs_create lab_hdr c2_state True 4 [0x61] 0x1A4 = Inl (BadPointer 28)"
    by (simp add: ospfs_create_def d f c2_blank c2_scan
        c2_inodes l e)
  moreover have "ospfs_link lab_hdr c2_state 3 4 [0x61] = Inl (BadPointer 28)"
    by (simp add: ospfs_link_def d f c2_blank l e)
  moreover have "ospfs_symlink lab_hdr c2_state True 4 [0x61] ''/t'' = Inl (BadPointer 28)"
    by (simp add: ospfs_symlink_def d f c2_blank c2_scan
        c2_inodes l e strlen_def NUL_def)
  ultimately show ?thesis
    using e by (simp add: c2_blank ERR_PTR_def ENOSPC_def)
qed

text \<open>An image with one free block (6), an empty directory (inode 4) and a free inode (2)
  that was a symbolic link to \<open>/old/target\<close> before it was unlinked.\<close>

definition c6_state :: ospfs_state where
  "c6_state = \<lparr>os_firstinob = 3, os_ninodes = 8,
     inodes = (\<lambda>_. (inode_zero lab_hdr)\<lparr>oi_nlink := 1\<rparr>)
       (2 := (inode_zero lab_hdr)\<lparr>oi_size := 11, oi_ftype := OSPFS_FTYPE_SYMLINK,
               oi_symlink := ''/old/target'' @ replicate 30 NUL\<rparr>,
        4 := (inode_zero lab_hdr)\<lparr>oi_ftype := OSPFS_FTYPE_DIR, oi_nlink := 1\<rparr>),
     ospfs_data = st32 (\<lambda>_. 0) 2048 64\<rparr>"

definition c6_s1 :: ospfs_state where
  "c6_s1 = snd (add_block lab_hdr c6_state 4)"

lemma c6_inodes:
  "os_ninodes c6_state = 8" "oi_nlink (inodes c6_state 0) = 1"
  "oi_nlink (inodes c6_state (Suc 0)) = 1" "oi_nlink (inodes c6_state 2) = 0"
  "oi_size (inodes c6_state 4) = 0"
  "oi_symlink (inodes c6_state 2) = ''/old/target'' @ replicate 30 NUL"
  by (simp_all add: c6_state_def inode_zero_def)

lemma c6_alloc:
  "allocate_block c6_state = (6, c6_state\<lparr>ospfs_data := bitvector_clear (ospfs_data c6_state) 2048 6\<rparr>)"
  by (rule allocate_block_6) (simp_all add: c6_state_def)

lemma c6_add: "add_block lab_hdr c6_state 4 = (0, c6_s1)"
  by (simp add: c6_s1_def step_defs c6_alloc c6_inodes)

lemma c6_s1_eq:
  "c6_s1 = c6_state\<lparr>
     ospfs_data := memset0 (bitvector_clear (ospfs_data c6_state) 2048 6) 6144 1024,
     inodes := (inodes c6_state)(4 := (inodes c6_state 4)\<lparr>
        oi_direct := (oi_direct (inodes c6_state 4))(0 := 6), oi_size := 1024\<rparr>)\<rparr>"
  by (simp add: c6_s1_def step_defs c6_alloc c6_inodes)

lemma c6_blank: "create_blank_direntry lab_hdr c6_state 4 = (Data 6144, c6_s1)"
proof -
  have b: "blank_scan lab_hdr c6_state 4 0 = (None, 0)"
    by (subst blank_scan.simps) (simp add: c6_inodes)
  have od: "ospfs_inode_data lab_hdr c6_s1 4 0 = 6144"
    by (simp add: ospfs_inode_data_def ospfs_inode_blockno_def c6_s1_eq c6_state_def
        inode_zero_def lab_consts ospfs_block_def OSPFS_FTYPE_DIR_def OSPFS_FTYPE_SYMLINK_def
        word_le_nat_alt)
  have z: "get32 c6_s1 6144 = 0"
    by (simp add: get32_def c6_s1_eq ld32_memset0_aligned)
  show ?thesis
    by (simp add: create_blank_direntry_def b c6_add od z)
qed

lemma c6_find: "find_direntry lab_hdr c6_state 4 name (int (length name)) = None"
  by (simp add: find_direntry_def) (subst find_direntry_loop.simps, simp add: c6_inodes)

lemma c6_scan: "inode_scan c6_state 0 = 2"
proof -
  have 2: "inode_scan c6_state 2 = 2"
    by (subst inode_scan.simps) (simp add: c6_inodes word_less_nat_alt)
  have 1: "inode_scan c6_state 1 = 2"
    by (subst inode_scan.simps) (simp add: c6_inodes word_less_nat_alt 2)
  show ?thesis
    by (subst inode_scan.simps) (simp add: c6_inodes word_less_nat_alt 1)
qed

lemma c6_symlink:
  assumes "NUL \<notin> set symname" and "length symname \<le> 40"
  shows "\<exists>s'. ospfs_symlink lab_hdr c6_state True 4 [0x6C] symname = Inr (0, s')
           \<and> oi_symlink (inodes s' 2)
               = symname @ NUL # drop (length symname + 1) (''/old/target'' @ replicate 30 NUL)"
proof -
  have d: "ospfs_inode c6_state 4 = Some 4"
    by (simp add: ospfs_inode_def c6_state_def word_le_nat_alt)
  have l: "MAXNAMELEN lab_hdr = 59" "MAXSYMLINKLEN lab_hdr = 40" by (simp_all add: lab_hdr_def)
  have f: "find_direntry lab_hdr c6_state 4 [0x6C] 1 = None" using c6_find [of "[0x6C]"] by simp
  have tw: "takeWhile (\<lambda>c. c \<noteq> NUL) symname = symname" using assms(1) by (auto simp add: takeWhile_eq_all_conv)
  have sl: "strlen symname = length symname" by (simp add: strlen_def tw)
  have i2: "oi_symlink (inodes c6_s1 2) = ''/old/target'' @ replicate 30 NUL"
    by (simp add: c6_s1_eq c6_inodes)
  show ?thesis
    using assms(2)
    by (simp add: ospfs_symlink_def d f l sl c6_scan c6_inodes c6_blank IS_ERR_def Let_def
        inode_upd_def put32_def set_direntry_name_def strcpy_def tw i2)
qed


lemma IS_ERR_PTR_ERR: "IS_ERR p \<Longrightarrow> PTR_ERR p \<noteq> 0"
  by (cases p) (auto simp add: IS_ERR_def PTR_ERR_def)

lemma ospfs_create_clears_inode:
  assumes "ospfs_create h s ok dir name mode = Inr (0, s')"
  shows "\<exists>ino. inodes s' ino
           = (inode_zero h)\<lparr>oi_ftype := OSPFS_FTYPE_REG, oi_nlink := 1, oi_mode := mode\<rparr>"
  using assms
  by (auto simp add: ospfs_create_def Let_def inode_upd_def inode_zero_def ENAMETOOLONG_def
      EIO_def EEXIST_def ENOSPC_def ENOMEM_def
      split: if_splits option.splits prod.splits pointer.splits dest: IS_ERR_PTR_ERR)

text \<open>
  Claim C6: create and symlink both zero the whole inode record they claim before they
  fill it in, so that nothing of a deleted file survives. \<open>ospfs_create\<close> does
  (\<open>ospfs_create_clears_inode\<close>); \<open>ospfs_symlink\<close> has no \<open>memset\<close> and stores three fields
  and the target string only. A link to \<open>/t\<close> made in the inode that held the link to
  \<open>/old/target\<close> keeps the bytes \<open>d/target\<close> behind its terminator.
\<close>

theorem symlink_keeps_stale_inode_bytes:
  "case ospfs_symlink lab_hdr c6_state True 4 [0x6C] ''/t'' of
     Inl f \<Rightarrow> False
   | Inr (r, s') \<Rightarrow> r = 0
       \<and> oi_symlink (inodes c6_state 2) = ''/old/target'' @ replicate 30 NUL
       \<and> oi_symlink (inodes s' 2) = ''/t'' @ NUL # ''d/target'' @ replicate 30 NUL
       \<and> oi_symlink (inodes s' 2) \<noteq> strcpy (oi_symlink (inode_zero lab_hdr)) ''/t''"
proof -
  have "NUL \<notin> set ''/t''" by (simp add: NUL_def)
  from c6_symlink [OF this] obtain s' where
    s': "ospfs_symlink lab_hdr c6_state True 4 [0x6C] ''/t'' = Inr (0, s')"
      "oi_symlink (inodes s' 2) = ''/t'' @ NUL # drop (length ''/t'' + 1) (''/old/target'' @ replicate 30 NUL)"
    by auto
  have "strcpy (oi_symlink (inode_zero lab_hdr)) ''/t'' ! 3 = NUL"
    by (simp add: strcpy_def strlen_def inode_zero_def lab_hdr_def NUL_def)
  moreover have "(''/t'' @ NUL # ''d/target'' @ replicate 30 NUL) ! 3 = CHR ''d''"
    by simp
  ultimately have z: "strcpy (oi_symlink (inode_zero lab_hdr)) ''/t''
      \<noteq> ''/t'' @ NUL # ''d/target'' @ replicate 30 NUL"
    by (auto simp add: NUL_def)
  show ?thesis
    using z by (simp add: s' c6_inodes)
qed

text \<open>The image after \<open>symlink("l", "root?/a:/b")\<close> in the directory of the image above.\<close>

definition c7_state :: ospfs_state where
  "c7_state = (case ospfs_symlink lab_hdr c6_state True 4 [0x6C] ''root?/a:/b'' of
                 Inl f \<Rightarrow> c6_state | Inr (r, s') \<Rightarrow> s')"


lemma c7_buf:
  "oi_symlink (inodes c7_state 2) = ''root?'' @ ''/a'' @ CHR '':'' # ''/b'' @ NUL # replicate 30 NUL"
proof -
  have "NUL \<notin> set ''root?/a:/b''" by (simp add: NUL_def)
  from c6_symlink [OF this] obtain s' where
    s': "ospfs_symlink lab_hdr c6_state True 4 [0x6C] ''root?/a:/b'' = Inr (0, s')"
      "oi_symlink (inodes s' 2)
         = ''root?/a:/b'' @ NUL # drop (length ''root?/a:/b'' + 1) (''/old/target'' @ replicate 30 NUL)"
    by auto
  then show ?thesis by (simp add: c7_state_def)
qed

text \<open>
  The link made with the target \<open>root?/a:/b\<close> resolves to \<open>/a\<close> for a process of user 0
  and to \<open>/b\<close> for a process of user 1000.
\<close>

theorem follow_link_conditional_witness:
  "oi_symlink (inodes c7_state 2) = ''root?'' @ ''/a'' @ CHR '':'' # ''/b'' @ NUL # replicate 30 NUL
   \<and> CHR '':'' \<notin> set ''/a'' \<and> NUL \<notin> set ''/a'' \<and> NUL \<notin> set ''/b''
   \<and> fst (ospfs_follow_link c7_state 2 \<lparr>uid = 0, euid = 0\<rparr>) = Some ''/a''
   \<and> fst (ospfs_follow_link c7_state 2 \<lparr>uid = 1000, euid = 1000\<rparr>) = Some ''/b''"
proof -
  have h: "CHR '':'' \<notin> set ''/a''" "NUL \<notin> set ''/a''" "NUL \<notin> set ''/b''"
    by (simp_all add: NUL_def)
  show ?thesis
    using h c7_buf follow_link_conditional [OF c7_buf h, of "\<lparr>uid = 0, euid = 0\<rparr>"]
      follow_link_conditional [OF c7_buf h, of "\<lparr>uid = 1000, euid = 1000\<rparr>"]
    by simp
qed

text \<open>
  Where the two user ids differ, the claim and the code part. A set-uid-root program run
  by user 1000 (real user id 1000, effective user id 0) follows the same link to \<open>/b\<close>,
  where the claim has \<open>/a\<close>; a process of user 0 that has dropped its effective user id
  to 1000 follows it to \<open>/a\<close>, where the claim has \<open>/b\<close>.
\<close>

theorem follow_link_ignores_effective_uid:
  "fst (ospfs_follow_link c7_state 2 \<lparr>uid = 1000, euid = 0\<rparr>) = Some ''/b''
   \<and> fst (ospfs_follow_link c7_state 2 \<lparr>uid = 0, euid = 1000\<rparr>) = Some ''/a''"
proof -
  have h: "CHR '':'' \<notin> set ''/a''" "NUL \<notin> set ''/a''" "NUL \<notin> set ''/b''"
    by (simp_all add: NUL_def)
  show ?thesis
    by (simp add: follow_link_root_form [OF c7_buf h])
qed

section \<open>A new indirect block that is not zeroed (C5)\<close>

text \<open>A table of \<open>n\<close> 32-bit words \<open>f 0, f 1, ...\<close> stored from address \<open>p\<close> on.\<close>

definition put_words :: "nat \<Rightarrow> (nat \<Rightarrow> u32) \<Rightarrow> nat \<Rightarrow> (nat \<Rightarrow> u8) \<Rightarrow> (nat \<Rightarrow> u8)" where
  "put_words p f n m =
     (\<lambda>a. if p \<le> a \<and> a < p + 4 * n
          then ucast (drop_bit (8 * ((a - p) mod 4)) (f ((a - p) div 4))) else m a)"

lemma ld32_bytes_of_word:
  "ucast (ucast (v :: u32) :: u8) OR push_bit 8 (ucast (ucast (drop_bit 8 v) :: u8))
     OR push_bit 16 (ucast (ucast (drop_bit 16 v) :: u8))
     OR push_bit 24 (ucast (ucast (drop_bit 24 v) :: u8)) = v"
  using ld32_st32_same [of "\<lambda>_. 0" 0 v] by (simp add: ld32_def st32_def)

lemma ld32_put_words:
  assumes "4 dvd p" and "4 dvd a"
  shows "ld32 (put_words p f n m) a
           = (if p \<le> a \<and> a < p + 4 * n then f ((a - p) div 4) else ld32 m a)"
proof -
  from assms obtain i j where e: "p = 4 * i" "a = 4 * j" by (auto elim!: dvdE)
  have c: "i \<le> j \<and> j < i + n \<or> j < i \<or> i + n \<le> j" by auto
  show ?thesis
  proof (cases "i \<le> j \<and> j < i + n")
    case True
    then obtain d where d: "j = i + d" "d < n" by (metis le_Suc_ex nat_add_left_cancel_less)
    have m: "(4 * d + 1) mod 4 = 1" "(4 * d + 2) mod 4 = 2" "(4 * d + 3) mod 4 = 3"
      "(4 * d + 1) div 4 = d" "(4 * d + 2) div 4 = d" "(4 * d + 3) div 4 = d"
      by presburger+
    have "ld32 (put_words p f n m) a
            = ucast (ucast (f d) :: u8) OR push_bit 8 (ucast (ucast (drop_bit 8 (f d)) :: u8))
              OR push_bit 16 (ucast (ucast (drop_bit 16 (f d)) :: u8))
              OR push_bit 24 (ucast (ucast (drop_bit 24 (f d)) :: u8))"
      using d m by (simp add: ld32_def put_words_def e add.assoc)
    then show ?thesis using True d by (simp add: ld32_bytes_of_word e)
  next
    case False
    with c have "j < i \<or> i + n \<le> j" by simp
    then show ?thesis by (elim disjE) (auto simp add: ld32_def put_words_def e)
  qed
qed


lemma allocate_block_in_word:
  assumes fi: "os_firstinob s = 3"
    and words: "\<And>w. 0 \<le> w \<Longrightarrow> w < 256 \<Longrightarrow>
                  ld32 (ospfs_data s) (slot 2048 w) = (if w = W then V else 0)"
    and W: "0 \<le> W" "W < 256" and b: "b < 32" "bit V b" "\<And>c. c < b \<Longrightarrow> \<not> bit V c"
  shows "allocate_block s =
           (word_of_int (32 * W + int b),
            s\<lparr>ospfs_data := bitvector_clear (ospfs_data s) 2048 (32 * W + int b)\<rparr>)"
proof -
  let ?k = "32 * W + int b"
  have nb: "num_bits s = 8192" by (simp add: num_bits_def fi lab_consts)
  have dm: "?k div 32 = W" "?k mod 32 = int b" using b(1) by simp_all
  have t: "bitvector_test (ospfs_data s) 2048 i
             = (i div 32 = W \<and> bit V (nat (i mod 32)))" if "0 \<le> i" "i < 8192" for i
    using that words [of "i div 32"] by (simp add: bitvector_test_bit)
  have first: "\<not> bitvector_test (ospfs_data s) 2048 i" if i: "0 \<le> i" "i < ?k" for i
  proof
    assume a: "bitvector_test (ospfs_data s) 2048 i"
    have "i < 8192" using i W b(1) by simp
    with a t [of i] i have w: "i div 32 = W" and bi: "bit V (nat (i mod 32))" by simp_all
    have "i = 32 * W + i mod 32" using w by (metis mult_div_mod_eq)
    with i(2) have "i mod 32 < int b" by simp
    then have "nat (i mod 32) < b" by simp
    with b(3) bi show False by blast
  qed
  have here: "bitvector_test (ospfs_data s) 2048 ?k"
    using t [of ?k] W b by (simp add: dm)
  show ?thesis
    using allocate_block_first [of ?k s] first here W b(1)
    by (simp add: nb ospfs_block_def lab_consts)
qed

lemma bit_0x60000: "bit (393216 :: u32) n = (n = 17 \<or> n = 18)"
proof -
  have "(2 ^ 17 :: u32) OR 2 ^ 18 = 393216" by simp
  then have "bit (393216 :: u32) n = bit ((2 ^ 17 :: u32) OR 2 ^ 18) n" by (simp only:)
  also have "\<dots> = (n = 17 \<or> n = 18)" by (simp only: bit_or_iff bit_exp_iff) auto
  finally show ?thesis .
qed

lemma bit_0x40000: "bit (262144 :: u32) n = (n = 18)"
proof -
  have "(262144 :: u32) = 2 ^ 18" by simp
  then show ?thesis by (simp only: bit_exp_iff) auto
qed


text \<open>
  A file of 522 blocks (inode 3): ten direct blocks 4..13, the indirect block 14 with the
  data blocks 15..270, the doubly-indirect block 271 whose first entry is the indirect
  block 272 with the data blocks 273..528. Blocks 529 and 530 are free, and block 529
  still holds an old word, 7.
\<close>

definition c5_image :: "nat \<Rightarrow> u8" where
  "c5_image =
     st32 (put_words 278528 (\<lambda>j. 273 + of_nat j) 256
            (st32 (put_words 14336 (\<lambda>j. 15 + of_nat j) 256 (st32 (\<lambda>_. 0) 2112 393216))
               277504 272))
       541696 7"

definition c5_state :: ospfs_state where
  "c5_state = \<lparr>os_firstinob = 3, os_ninodes = 8,
     inodes = (\<lambda>_. (inode_zero lab_hdr)\<lparr>oi_nlink := 1\<rparr>)
       (3 := (inode_zero lab_hdr)\<lparr>oi_size := 534528, oi_ftype := OSPFS_FTYPE_REG, oi_nlink := 1,
               oi_direct := (\<lambda>j. if j < 10 then of_nat (4 + j) else 0),
               oi_indirect := 14, oi_indirect2 := 271\<rparr>),
     ospfs_data = c5_image\<rparr>"

lemmas ld32_layers = ld32_st32_aligned ld32_memset0_aligned ld32_put_words slot_aligned

lemma c5_bitmap:
  "0 \<le> w \<Longrightarrow> w < 256 \<Longrightarrow> ld32 c5_image (slot 2048 w) = (if w = 16 then 393216 else 0)"
  by (simp add: c5_image_def ld32_layers) (auto simp add: slot_def)

lemma c5_alloc1:
  "allocate_block c5_state
     = (529, c5_state\<lparr>ospfs_data := bitvector_clear c5_image 2048 529\<rparr>)"
proof -
  have d: "ospfs_data c5_state = c5_image" by (simp add: c5_state_def)
  have "allocate_block c5_state
          = (word_of_int (32 * 16 + int 17),
             c5_state\<lparr>ospfs_data := bitvector_clear (ospfs_data c5_state) 2048 (32 * 16 + int 17)\<rparr>)"
  proof (rule allocate_block_in_word [where V = 393216])
    show "os_firstinob c5_state = 3" by (simp add: c5_state_def)
    show "ld32 (ospfs_data c5_state) (slot 2048 w) = (if w = 16 then 393216 else 0)"
      if "0 \<le> w" "w < 256" for w using that by (simp add: d c5_bitmap)
    show "bit (393216 :: u32) 17" by (simp only: bit_0x60000; simp)
    show "\<not> bit (393216 :: u32) c" if "c < 17" for c
      using that by (simp only: bit_0x60000; auto)
  qed simp_all
  then show ?thesis by (simp add: d)
qed

definition c5_s2 :: ospfs_state where
  "c5_s2 = put32 (c5_state\<lparr>ospfs_data := bitvector_clear c5_image 2048 529\<rparr>) 277508 529"

lemma c5_s2_bitmap:
  "0 \<le> w \<Longrightarrow> w < 256 \<Longrightarrow>
     ld32 (ospfs_data c5_s2) (slot 2048 w) = (if w = 16 then 262144 else 0)"
  by (simp add: c5_s2_def put32_def bitvector_clear_def ld32_layers c5_bitmap)
    (auto simp add: slot_def)

lemma c5_alloc2:
  "allocate_block c5_s2
     = (530, c5_s2\<lparr>ospfs_data := bitvector_clear (ospfs_data c5_s2) 2048 530\<rparr>)"
proof -
  have "allocate_block c5_s2
          = (word_of_int (32 * 16 + int 18),
             c5_s2\<lparr>ospfs_data := bitvector_clear (ospfs_data c5_s2) 2048 (32 * 16 + int 18)\<rparr>)"
  proof (rule allocate_block_in_word [where V = 262144])
    show "os_firstinob c5_s2 = 3" by (simp add: c5_s2_def put32_def c5_state_def)
    show "ld32 (ospfs_data c5_s2) (slot 2048 w) = (if w = 16 then 262144 else 0)"
      if "0 \<le> w" "w < 256" for w using that by (rule c5_s2_bitmap)
    show "bit (262144 :: u32) 18" by (simp only: bit_0x40000)
    show "\<not> bit (262144 :: u32) c" if "c < 18" for c
      using that by (simp only: bit_0x40000; auto)
  qed simp_all
  then show ?thesis by simp
qed


lemma c5_inode:
  "oi_size (inodes c5_state 3) = 534528" "oi_indirect2 (inodes c5_state 3) = 271"
  "inodes c5_s2 = inodes c5_state"
  by (simp_all add: c5_state_def c5_s2_def)

lemma c5_slot1_empty: "get32 c5_state 277508 = 0"
  by (simp add: get32_def c5_state_def c5_image_def ld32_layers)

text \<open>
  Claim C5: every block that \<open>add_block\<close> allocates, data block, indirect block or
  doubly-indirect block, is zeroed before it is linked into the file, in every case of
  the growth. In the case where the doubly-indirect block exists and the indirect block
  for the new file block does not, the code links the new indirect block without the
  \<open>memset\<close> that every other case has. Adding block 522 to the file above takes block 529
  as the new indirect block and stores it in entry 1 of the doubly-indirect block 271;
  the old word 7 is still at the start of block 529 when \<open>add_block\<close> returns 0.
\<close>

theorem add_block_links_unzeroed_indirect_block:
  "case add_block lab_hdr c5_state 3 of
     (r, s') \<Rightarrow> r = 0
        \<and> get32 c5_state (slot (ospfs_block 271) 1) = 0
        \<and> get32 s' (slot (ospfs_block 271) 1) = 529
        \<and> bitvector_test (ospfs_data c5_state) (ospfs_block OSPFS_FREEMAP_BLK) 529
        \<and> get32 s' (ospfs_block 529) = 7"
proof -
  have idx: "indir_index lab_hdr 522 = 1" "direct_index lab_hdr 522 = 256"
    by (simp_all add: indir_index_def direct_index_def lab_consts word_le_nat_alt word_less_nat_alt)
  have n: "ospfs_size2nblocks 534528 = 522" by (simp add: ospfs_size2nblocks_def lab_consts)
  have sl: "slot (ospfs_block 271) 1 = 277508" "slot (ospfs_block 529) 256 = 542720"
    "ospfs_block 529 = 541696" "ospfs_block 530 = 542720" "ospfs_block 271 = 277504"
    "slot 277504 1 = 277508" "slot 541696 256 = 542720"
    by (simp_all add: slot_def ospfs_block_def lab_consts)
  define s3 where "s3 = c5_s2\<lparr>ospfs_data := bitvector_clear (ospfs_data c5_s2) 2048 530\<rparr>"
  define s5 where "s5 = put32 (zero_block s3 530) 542720 530"
  have ib2: "add_block_indirect2 lab_hdr c5_state 3 522 = (0, s5)"
    by (simp add: add_block_indirect2_def idx c5_inode sl c5_slot1_empty c5_alloc1
        c5_s2_def [symmetric] c5_alloc2 s3_def [symmetric] s5_def)
  have ab: "add_block lab_hdr c5_state 3
              = (0, inode_upd s5 3 (\<lambda>i. i\<lparr>oi_size := add_block_size (oi_size i)\<rparr>))"
    by (simp add: add_block_def c5_inode n ib2 lab_consts word_less_nat_alt)
  have free: "bitvector_test (ospfs_data c5_state) 2048 529"
    using c5_bitmap [of 16] by (simp add: bitvector_test_bit c5_state_def)
  have d5: "ospfs_data s5 = st32 (memset0 (bitvector_clear (st32 (bitvector_clear c5_image 2048 529)
                277508 529) 2048 530) 542720 1024) 542720 530"
    by (simp add: s5_def s3_def c5_s2_def put32_def zero_block_def sl lab_consts c5_state_def)
  have a: "get32 s5 277508 = 529"
    by (simp add: get32_def d5 bitvector_clear_def ld32_layers slot_def)
  have b: "get32 s5 541696 = 7"
    by (simp add: get32_def d5 bitvector_clear_def ld32_layers c5_image_def slot_def)
  have g: "get32 (inode_upd s5 3 f) p = get32 s5 p" for f p
    by (simp add: get32_def inode_upd_def)
  show ?thesis
    using free a b
    by (simp add: ab sl c5_slot1_empty g ospfs_block_def lab_consts)
qed

section \<open>Reading and writing (C9, C10)\<close>

text \<open>
  Both loops move the data in chunks that stay inside one block. A chunk never takes
  the count of bytes moved past the count asked for, and the file position moves with
  the count of bytes moved.
\<close>

lemma chunk_step:
  assumes "amount < count"
  shows "unat (amount + chunk count amount (blk_off_of h s oi pos))
           = unat amount + unat (chunk count amount (blk_off_of h s oi pos))"
    and "unat amount + unat (chunk count amount (blk_off_of h s oi pos)) \<le> unat count"
    and "amount + chunk count amount (blk_off_of h s oi pos) \<le> count"
proof -
  show a: "unat (amount + chunk count amount (blk_off_of h s oi pos))
           = unat amount + unat (chunk count amount (blk_off_of h s oi pos))"
    by (rule chunk_advance(1) [OF assms blk_off_of_eq])
  show b: "unat amount + unat (chunk count amount (blk_off_of h s oi pos)) \<le> unat count"
    by (rule chunk_bounds(2) [OF assms blk_off_of_eq])
  show "amount + chunk count amount (blk_off_of h s oi pos) \<le> count"
    using a b by (simp add: word_le_nat_alt)
qed

lemma unat_ucast_u32_loff: "unat (ucast (x :: u32) :: loff_t) = unat x"
proof -
  have "unat x < 2 ^ 32" using unsigned_less [of x, where 'a = nat] by simp
  then have "unat x < 2 ^ 64" by simp
  then show ?thesis by (simp add: unsigned_ucast_eq take_bit_nat_eq_self)
qed

lemma ucast_add_no_wrap:
  fixes a n :: u32
  assumes "unat (a + n) = unat a + unat n"
  shows "(ucast (a + n) :: loff_t) = ucast a + ucast n"
proof -
  have "unat a + unat n < 2 ^ 32"
    using unsigned_less [of "a + n", where 'a = nat] assms by simp
  then have "unat a + unat n < 2 ^ 64" by simp
  then have "unat (ucast a + ucast n :: loff_t) = unat a + unat n"
    by (simp add: unat_word_ariths unat_ucast_u32_loff)
  then have "unat (ucast (a + n) :: loff_t) = unat (ucast a + ucast n :: loff_t)"
    by (simp add: unat_ucast_u32_loff assms)
  then show ?thesis by (simp only: word_unat_eq_iff)
qed

lemma read_loop_bounds:
  assumes "read_loop h s oi ucap count amount pos out = (r, amount', pos', out')"
    and "amount \<le> count" and "length out = unat amount"
  shows "amount' \<le> count \<and> length out' \<le> unat count
         \<and> (0 \<le> r \<longrightarrow> length out' = unat amount')
         \<and> pos' - ucast amount' = pos - ucast amount"
  using assms
proof (induction h s oi ucap count amount pos out rule: read_loop.induct)
  case (1 h s oi ucap count amount pos out)
  show ?case
  proof (cases "amount < count")
    case False
    with "1.prems" show ?thesis
      by (subst (asm) read_loop.simps) (auto simp add: word_le_nat_alt)
  next
    case lt: True
    let ?n = "chunk count amount (blk_off_of h s oi pos)"
    note st = chunk_step [OF lt, of h s oi pos]
    show ?thesis
    proof (cases "ospfs_inode_blockno h s oi (ucast pos) = 0")
      case True
      with lt "1.prems" show ?thesis
        by (subst (asm) read_loop.simps) (auto simp add: word_le_nat_alt EIO_def)
    next
      case nz: False
      show ?thesis
      proof (cases "ucap < unat amount + unat ?n")
        case True
        with lt nz "1.prems" st show ?thesis
          by (subst (asm) read_loop.simps) (auto simp add: Let_def word_le_nat_alt EFAULT_def)
      next
        case False
        let ?bytes = "mem_bytes (ospfs_data s) (ospfs_block (ospfs_inode_blockno h s oi (ucast pos))
                        + unat (blk_off_of h s oi pos)) (unat ?n)"
        have rec: "read_loop h s oi ucap count (amount + ?n) (pos + ucast ?n) (out @ ?bytes)
                     = (r, amount', pos', out')"
          using lt nz False "1.prems"(1) by (subst (asm) read_loop.simps) (simp add: Let_def)
        have len: "length (out @ ?bytes) = unat (amount + ?n)"
          using "1.prems"(3) st(1) by (simp add: mem_bytes_def)
        have ih: "amount' \<le> count \<and> length out' \<le> unat count
                  \<and> (0 \<le> r \<longrightarrow> length out' = unat amount')
                  \<and> pos' - ucast amount' = pos + ucast ?n - ucast (amount + ?n)"
          using "1.IH" [OF lt refl nz refl refl refl refl False rec st(3) len] .
        then show ?thesis by (simp add: ucast_add_no_wrap [OF st(1)])
      qed
    qed
  qed
qed

lemma write_loop_bounds:
  assumes "write_loop h s oi ubuf count amount pos = (r, amount', pos', s')"
    and "amount \<le> count"
  shows "amount' \<le> count \<and> pos' - ucast amount' = pos - ucast amount \<and> r \<le> 0"
  using assms
proof (induction h s oi ubuf count amount pos rule: write_loop.induct)
  case (1 h s oi ubuf count amount pos)
  show ?case
  proof (cases "amount < count")
    case False
    with "1.prems" show ?thesis
      by (subst (asm) write_loop.simps) (auto simp add: word_le_nat_alt)
  next
    case lt: True
    let ?n = "chunk count amount (blk_off_of h s oi pos)"
    note st = chunk_step [OF lt, of h s oi pos]
    show ?thesis
    proof (cases "ospfs_inode_blockno h s oi (ucast pos) = 0")
      case True
      with lt "1.prems" show ?thesis
        by (subst (asm) write_loop.simps) (auto simp add: word_le_nat_alt EIO_def)
    next
      case nz: False
      show ?thesis
      proof (cases "length ubuf < unat amount + unat ?n")
        case True
        with lt nz "1.prems" st show ?thesis
          by (subst (asm) write_loop.simps) (auto simp add: Let_def word_le_nat_alt EFAULT_def)
      next
        case False
        let ?bytes = "take (unat ?n) (drop (unat amount) ubuf)"
        let ?s1 = "s\<lparr>ospfs_data := memcpy_to (ospfs_data s)
                      (ospfs_block (ospfs_inode_blockno h s oi (ucast pos))
                         + unat (blk_off_of h s oi pos)) ?bytes\<rparr>"
        have rec: "write_loop h ?s1 oi ubuf count (amount + ?n) (pos + ucast ?n)
                     = (r, amount', pos', s')"
          using lt nz False "1.prems"(1) by (subst (asm) write_loop.simps) (simp add: Let_def)
        have ih: "amount' \<le> count
                  \<and> pos' - ucast amount' = pos + ucast ?n - ucast (amount + ?n) \<and> r \<le> 0"
          using "1.IH" [OF lt refl nz refl refl refl refl False rec st(3)] .
        then show ?thesis by (simp add: ucast_add_no_wrap [OF st(1)])
      qed
    qed
  qed
qed

subsection \<open>The signed and the unsigned reading of a position\<close>

lemma sint_ucast_u32 [simp]: "sint (ucast (x :: u32) :: loff_t) = uint x"
proof -
  have "uint x < 2 ^ 32" using unsigned_less [of x, where 'a = int] by simp
  then have "uint x < 2 ^ 63" by simp
  moreover have "- (2 ^ 63) \<le> uint x"
  proof -
    have "(0 :: int) \<le> uint x" by simp
    moreover have "- (2 ^ 63) \<le> (0 :: int)" by simp
    ultimately show ?thesis by (rule order_trans [rotated])
  qed
  ultimately have "signed_take_bit 63 (uint x) = uint x"
    by (rule signed_take_bit_int_eq_self [rotated])
  then show ?thesis
    by (simp add: signed_ucast_eq)
qed

lemma sint_le_uint: "sint (x :: u32) \<le> uint x"
proof -
  have "- (2 ^ 31) \<le> uint x"
  proof -
    have "(0 :: int) \<le> uint x" by simp
    moreover have "- (2 ^ 31) \<le> (0 :: int)" by simp
    ultimately show ?thesis by (rule order_trans [rotated])
  qed
  then have "signed_take_bit 31 (uint x) \<le> uint x"
    by (simp only: signed_take_bit_int_less_eq_self_iff)
  then show ?thesis by (simp add: sint_uint)
qed

lemma sint_nonneg_eq_uint:
  assumes "0 \<le> sint (a :: u32)"
  shows "sint a = uint a"
proof -
  have nb: "\<not> bit (uint a) 31" using assms by (simp add: sint_uint)
  have "uint a = take_bit (Suc 31) (uint a)"
    using unsigned_less [of a, where 'a = int] by (simp add: take_bit_int_eq_self)
  also have "\<dots> = take_bit 31 (uint a)"
    using nb by (simp only: take_bit_Suc_from_most) simp
  finally have "uint a < 2 ^ 31"
    by (metis take_bit_int_less_exp)
  moreover have "- (2 ^ 31) \<le> uint a"
  proof -
    have "(0 :: int) \<le> uint a" by simp
    moreover have "- (2 ^ 31) \<le> (0 :: int)" by simp
    ultimately show ?thesis by (rule order_trans [rotated])
  qed
  ultimately have "signed_take_bit 31 (uint a) = uint a"
    by (rule signed_take_bit_int_eq_self [rotated])
  then show ?thesis by (simp add: sint_uint)
qed

lemma scast_nonneg_eq_ucast:
  assumes "0 \<le> sint (a :: u32)"
  shows "(scast a :: loff_t) = ucast a"
proof -
  have "(scast a :: loff_t) = word_of_int (sint a)" by simp
  also have "\<dots> = word_of_int (uint a)" by (simp only: sint_nonneg_eq_uint [OF assms])
  also have "\<dots> = ucast a" by simp
  finally show ?thesis .
qed

lemma sint_add_ucast_bounded:
  fixes a :: u32 and p :: loff_t
  assumes "sint p + uint a \<le> uint (sz :: u32)"
  shows "sint (p + ucast a) = sint p + uint a"
proof -
  have S: "uint sz < 2 ^ 32" using unsigned_less [of sz, where 'a = int] by simp
  have A: "0 \<le> uint a" by simp
  have P: "- (2 ^ 63) \<le> sint p" using sint_ge [of p] by simp
  have "sint (p + ucast a) = signed_take_bit 63 (sint p + uint a)"
    by (simp add: sint_word_ariths)
  moreover have "- (2 ^ 63) \<le> sint p + uint a" using P A by linarith
  moreover have "sint p + uint a < 2 ^ 63" using assms S by simp
  ultimately show ?thesis by (simp add: signed_take_bit_int_eq_self)
qed

lemma clamp_bound:
  fixes sz count :: u32 and f_pos :: loff_t
  assumes "sint f_pos \<le> uint sz"
  shows "uint (if (ucast sz :: loff_t) <s f_pos + ucast count
               then (ucast (ucast sz - f_pos) :: u32) else count)
           \<le> uint sz - sint f_pos"
proof -
  define S where "S = uint sz"
  define P where "P = sint f_pos"
  define C where "C = uint count"
  have S: "0 \<le> S" "S < 2 ^ 32" using unsigned_less [of sz, where 'a = int] by (simp_all add: S_def)
  have C: "0 \<le> C" "C < 2 ^ 32" using unsigned_less [of count, where 'a = int] by (simp_all add: C_def)
  have P: "- (2 ^ 63) \<le> P" "P \<le> S"
    using sint_ge [of f_pos] assms by (simp_all add: P_def S_def)
  have sum: "sint (f_pos + ucast count) = P + C"
  proof -
    have "sint (f_pos + ucast count) = signed_take_bit 63 (P + C)"
      by (simp add: sint_word_ariths P_def C_def)
    moreover have "- (2 ^ 63) \<le> P + C" "P + C < 2 ^ 63" using P C S by simp_all
    ultimately show ?thesis by (simp add: signed_take_bit_int_eq_self)
  qed
  show ?thesis
  proof (cases "(ucast sz :: loff_t) <s f_pos + ucast count")
    case True
    have "uint (ucast (ucast sz - f_pos :: loff_t) :: u32) = take_bit 32 (S - P)"
    proof -
      have "uint (ucast (ucast sz - f_pos :: loff_t) :: u32)
              = take_bit 32 (take_bit 64 (uint (ucast sz :: loff_t) - uint f_pos))"
        by (simp add: unsigned_ucast_eq uint_word_arith_bintrs)
      also have "\<dots> = take_bit 32 (uint (ucast sz :: loff_t) - uint f_pos)"
        by (simp add: take_bit_take_bit)
      also have "uint (ucast sz :: loff_t) = S"
        using S by (simp add: unsigned_ucast_eq take_bit_int_eq_self S_def)
      also have "take_bit 32 (S - uint f_pos) = take_bit 32 (S - P)"
      proof -
        have "take_bit 32 (uint f_pos) = take_bit 32 P"
          by (simp add: uint_sint P_def take_bit_take_bit)
        then show ?thesis
          by (metis take_bit_diff)
      qed
      finally show ?thesis .
    qed
    also have "\<dots> \<le> S - P" using P by (simp add: take_bit_int_less_eq_self_iff)
    finally show ?thesis using True by (simp add: S_def P_def)
  next
    case False
    then have "P + C \<le> S" by (simp add: word_sless_alt sum S_def)
    then show ?thesis using False by (simp add: S_def P_def C_def)
  qed
qed

subsection \<open>A read ends at the end of the file\<close>

lemma length_mem_bytes [simp]: "length (mem_bytes m p n) = n"
  by (simp add: mem_bytes_def)

text \<open>A read of 200 bytes at position 40 of the 100-byte file of the first image.\<close>

lemma c1_read:
  "ospfs_read lab_hdr c1_state 2 200 200 40 = (60, 100, mem_bytes (ospfs_data c1_state) 5160 60)"
proof -
  have cnt: "(if (ucast (oi_size (inodes c1_state 2)) :: loff_t) <s 40 + ucast (200 :: u32)
              then (ucast (ucast (oi_size (inodes c1_state 2)) - (40 :: loff_t)) :: u32) else 200) = 60"
    by (simp add: word_sless_alt)
  have bn: "ospfs_inode_blockno lab_hdr c1_state 2 40 = 5"
    by (simp add: ospfs_inode_blockno_def c1_state_def inode_zero_def lab_consts
        OSPFS_FTYPE_REG_def OSPFS_FTYPE_SYMLINK_def word_le_nat_alt)
  have ch: "chunk 60 0 40 = 60"
    by (simp add: chunk_def lab_consts word_le_nat_alt)
  have l2: "read_loop lab_hdr c1_state 2 200 60 60 100 out = (0, 60, 100, out)" for out
    by (subst read_loop.simps) simp
  have l1: "read_loop lab_hdr c1_state 2 200 60 0 40 []
              = (0, 60, 100, mem_bytes (ospfs_data c1_state) 5160 60)"
    by (subst read_loop.simps)
      (simp add: bn blk_off_of_eq lab_consts ch EIO_def ospfs_block_def l2)
  show ?thesis
    by (simp add: ospfs_read_def cnt l1)
qed

text \<open>
  Claim C10: a read that starts at a position that is at most the size of the file
  transfers at most size minus position bytes. \<open>out\<close> is what the read has stored in
  the caller's buffer, \<open>ret\<close> the value it returns, \<open>pos'\<close> the file position it
  leaves. This holds for every image, every count and every capacity of the caller's
  buffer, also when the read fails part of the way; the position is a signed 64-bit
  number, the size an unsigned 32-bit one.
\<close>

theorem ospfs_read_stops_at_end_of_file:
  assumes rd: "ospfs_read h s oi ucap count f_pos = (ret, pos', out)"
    and pos: "sint f_pos \<le> uint (oi_size (inodes s oi))"
  shows "int (length out) \<le> uint (oi_size (inodes s oi)) - sint f_pos
         \<and> ret \<le> uint (oi_size (inodes s oi)) - sint f_pos
         \<and> sint pos' \<le> uint (oi_size (inodes s oi))"
proof -
  let ?sz = "oi_size (inodes s oi)"
  define count' where "count' = (if (ucast ?sz :: loff_t) <s f_pos + ucast count
                                 then (ucast (ucast ?sz - f_pos) :: u32) else count)"
  have cb: "uint count' \<le> uint ?sz - sint f_pos"
    unfolding count'_def by (rule clamp_bound [OF pos])
  obtain r amount' p' out' where
    lp: "read_loop h s oi ucap count' 0 f_pos [] = (r, amount', p', out')"
    by (cases "read_loop h s oi ucap count' 0 f_pos []") auto
  have res: "ret = (if 0 \<le> r then sint amount' else r)" "out = out'" "pos' = p'"
    using rd lp by (simp_all add: ospfs_read_def count'_def [symmetric] Let_def)
  have b: "amount' \<le> count'" "length out' \<le> unat count'" "p' - ucast amount' = f_pos"
    using read_loop_bounds [OF lp] by simp_all
  have "int (length out') \<le> int (unat count')" using b(2) by (simp only: of_nat_le_iff)
  then have "int (length out') \<le> uint count'" by simp
  then have 1: "int (length out) \<le> uint ?sz - sint f_pos" using cb res(2) by simp
  have am: "uint amount' \<le> uint count'" using b(1) by (simp add: word_le_def)
  then have "sint amount' \<le> uint count'"
    using sint_le_uint [of amount'] by simp
  then have 2: "ret \<le> uint ?sz - sint f_pos"
  proof (cases "0 \<le> r")
    case True
    with \<open>sint amount' \<le> uint count'\<close> cb show ?thesis by (simp add: res(1))
  next
    case False
    with pos show ?thesis by (simp add: res(1))
  qed
  have "p' = f_pos + ucast amount'" using b(3) by (simp add: algebra_simps)
  moreover have "sint f_pos + uint amount' \<le> uint ?sz" using am cb by simp
  ultimately have 3: "sint pos' \<le> uint ?sz"
    by (simp add: res(3) sint_add_ucast_bounded)
  show ?thesis using 1 2 3 by simp
qed

theorem ospfs_read_stops_at_end_of_file_witness:
  "sint (40 :: loff_t) \<le> uint (oi_size (inodes c1_state 2))
   \<and> (case ospfs_read lab_hdr c1_state 2 200 200 40 of
        (ret, pos', out) \<Rightarrow> ret = 60 \<and> length out = 60 \<and> pos' = 100
          \<and> int (length out) \<le> uint (oi_size (inodes c1_state 2)) - sint (40 :: loff_t)
          \<and> ret \<le> uint (oi_size (inodes c1_state 2)) - sint (40 :: loff_t)
          \<and> sint pos' \<le> uint (oi_size (inodes c1_state 2)))"
proof -
  have p: "sint (40 :: loff_t) \<le> uint (oi_size (inodes c1_state 2))" by simp
  show ?thesis
    using p ospfs_read_stops_at_end_of_file [OF c1_read p] by (simp add: c1_read)
qed

subsection \<open>A write with \<open>O_APPEND\<close> starts at the end of the file\<close>

text \<open>
  The image after \<open>change_size\<close> has taken the 100-byte file of the first image to
  101 bytes.
\<close>

definition c9_s1 :: ospfs_state where
  "c9_s1 = inode_upd c1_state 2 (\<lambda>i. i\<lparr>oi_size := 101\<rparr>)"

lemma c9_change_size: "change_size lab_hdr c1_state 2 101 = (0, c9_s1)"
proof -
  have g: "change_size_grow lab_hdr c1_state 2 100 101 = (0, c1_state)"
    by (subst change_size_grow.simps)
      (simp add: word_less_nat_alt ospfs_size2nblocks_def lab_consts)
  have sh: "change_size_shrink lab_hdr c1_state 2 101 = (0, c1_state)"
    by (subst change_size_shrink.simps)
      (simp add: word_less_nat_alt ospfs_size2nblocks_def lab_consts)
  show ?thesis
    by (simp add: change_size_def g sh c9_s1_def)
qed

lemma c9_write:
  "ospfs_write lab_hdr c1_state 2 O_APPEND [0x58] 1 0
     = (1, 101, c9_s1\<lparr>ospfs_data := memcpy_to (ospfs_data c9_s1) 5220 [0x58]\<rparr>)"
proof -
  have bn: "ospfs_inode_blockno lab_hdr c9_s1 2 100 = 5"
    by (simp add: ospfs_inode_blockno_def c9_s1_def inode_upd_def c1_state_def inode_zero_def
        lab_consts OSPFS_FTYPE_REG_def OSPFS_FTYPE_SYMLINK_def word_le_nat_alt)
  have ch: "chunk 1 0 100 = 1"
    by (simp add: chunk_def lab_consts word_le_nat_alt)
  have l2: "write_loop lab_hdr s 2 [0x58] 1 1 101 = (0, 1, 101, s)" for s
    by (subst write_loop.simps) simp
  have l1: "write_loop lab_hdr c9_s1 2 [0x58] 1 0 100
              = (0, 1, 101, c9_s1\<lparr>ospfs_data := memcpy_to (ospfs_data c9_s1) 5220 [0x58]\<rparr>)"
    by (subst write_loop.simps)
      (simp add: bn blk_off_of_eq lab_consts ch EIO_def ospfs_block_def l2)
  show ?thesis
    by (simp add: ospfs_write_def O_APPEND_def c9_change_size l1)
qed

text \<open>
  Claim C9: a write on a file opened with \<open>O_APPEND\<close> starts at the end of the file,
  whatever position is passed in. The result of such a write (value returned, position
  left, image left) is the same for every position passed in; it is the result of a
  write without the flag at the position that is the size of the file; and when the
  write returns a count of bytes, the position it leaves is the old size of the file
  plus that count.
\<close>

theorem ospfs_write_append:
  assumes app: "f_flags AND O_APPEND \<noteq> 0"
    and wr: "ospfs_write h s oi f_flags ubuf count f_pos = (ret, pos', s')"
  shows "ospfs_write h s oi f_flags ubuf count f_pos2 = (ret, pos', s')
         \<and> ospfs_write h s oi 0 ubuf count (ucast (oi_size (inodes s oi))) = (ret, pos', s')
         \<and> (0 \<le> ret \<longrightarrow> pos' = ucast (oi_size (inodes s oi)) + word_of_int ret)"
proof -
  let ?sz = "oi_size (inodes s oi)"
  have 1: "ospfs_write h s oi f_flags ubuf count f_pos2 = ospfs_write h s oi f_flags ubuf count f_pos"
    using app by (simp add: ospfs_write_def)
  have 2: "ospfs_write h s oi 0 ubuf count (ucast ?sz) = ospfs_write h s oi f_flags ubuf count f_pos"
    using app by (simp add: ospfs_write_def)
  define s1 where "s1 = (if (ucast ((ucast ?sz :: loff_t) - ucast ?sz) :: u32) < count
      then snd (change_size h s oi
                 (?sz + (count - (ucast ((ucast ?sz :: loff_t) - ucast ?sz) :: u32))))
      else s)"
  obtain r amount' p' s2 where
    lp: "write_loop h s1 oi ubuf count 0 (ucast ?sz) = (r, amount', p', s2)"
    by (cases "write_loop h s1 oi ubuf count 0 (ucast ?sz)") auto
  have wr': "ospfs_write h s oi f_flags ubuf count f_pos =
      (case write_loop h s1 oi ubuf count 0 (ucast ?sz) of
         (retval, amount, pos, s2) \<Rightarrow> ((if retval \<ge> 0 then sint amount else retval), pos, s2))"
    unfolding ospfs_write_def Let_def s1_def using app
    by (simp only: if_True not_False_eq_True)
  have res: "ret = (if 0 \<le> r then sint amount' else r)" "pos' = p'"
    using wr unfolding wr' lp by simp_all
  have p: "p' = ucast ?sz + ucast amount'"
    using write_loop_bounds [OF lp] by (simp add: algebra_simps)
  have r: "r \<le> 0" using write_loop_bounds [OF lp] by simp
  have 3: "pos' = ucast ?sz + word_of_int ret" if "0 \<le> ret"
  proof -
    from that r have "0 \<le> r" "0 \<le> sint amount'" by (auto simp add: res(1) split: if_splits)
    then show ?thesis by (simp add: res p scast_nonneg_eq_ucast)
  qed
  show ?thesis using 1 2 3 wr by simp
qed

text \<open>
  One byte appended to the 100-byte file in block 5, with position 0 and with position
  7777 passed in: the byte is stored at offset 100 of the block, the byte at offset 0
  is untouched, and the position left is 101.
\<close>

theorem ospfs_write_append_witness:
  "O_APPEND AND O_APPEND \<noteq> 0
   \<and> oi_size (inodes c1_state 2) = 100
   \<and> (case ospfs_write lab_hdr c1_state 2 O_APPEND [0x58] 1 0 of
        (ret, pos', s') \<Rightarrow> ret = 1 \<and> pos' = 101
          \<and> ospfs_data s' (ospfs_block 5 + 100) = 0x58 \<and> ospfs_data s' (ospfs_block 5) = 0
          \<and> ospfs_write lab_hdr c1_state 2 O_APPEND [0x58] 1 7777 = (ret, pos', s')
          \<and> ospfs_write lab_hdr c1_state 2 0 [0x58] 1 100 = (ret, pos', s'))"
proof -
  have a: "O_APPEND AND O_APPEND \<noteq> 0" by (simp add: O_APPEND_def)
  have d: "ospfs_data c9_s1 5120 = 0"
    by (simp add: c9_s1_def inode_upd_def c1_state_def st32_def)
  show ?thesis
    using a d ospfs_write_append [OF a c9_write, of 7777]
    by (simp add: c9_write memcpy_to_def ospfs_block_def lab_consts)
qed

section \<open>Writing and reading back (C8)\<close>


lemma ucast_ucast_u32 [simp]: "(ucast (ucast (a :: u32) :: loff_t) :: u32) = a"
  by (simp add: ucast_down_ucast_id is_down)


































end
